theory Spec2Isabelle
  imports Main "HOL-Library.AList" "HOL-Library.Sublist"
begin

section \<open>Python values\<close>

text \<open>
  The classes whose instances \<open>Database.unmarshal\<close> builds. Their modules
  (\<open>index\<close>, \<open>fragment\<close>, \<open>mergeblackout\<close>, \<open>scheduledbackup\<close>, \<open>path\<close>,
  \<open>lexicon\<close>, \<open>through\<close>, \<open>ruleset\<close>, \<open>field\<close>) are imported by
  \<open>marklogic/models/database/__init__.py\<close>. A factory classmethod such as
  \<open>MergeBlackout.recurringAllDay\<close> is written \<open>MergeBlackout_recurringAllDay\<close>.
\<close>

datatype cls =
    ElementRangeIndex
  | FieldRangeIndex
  | AttributeRangeIndex
  | PathRangeIndex
  | GeospatialElementIndex
  | GeospatialPathIndex
  | GeospatialElementChildIndex
  | GeospatialElementPairIndex
  | GeospatialElementAttributePairIndex
  | FragmentRoot
  | FragmentParent
  | MergeBlackout_recurringAllDay
  | MergeBlackout_recurringDuration
  | MergeBlackout_recurringStartEnd
  | MergeBlackout_oneTimeStartEnd
  | MergeBlackout_oneTimeDuration
  | ScheduledDatabaseBackup_minutely
  | ScheduledDatabaseBackup_hourly
  | ScheduledDatabaseBackup_daily
  | ScheduledDatabaseBackup_weekly
  | ScheduledDatabaseBackup_monthly
  | ScheduledDatabaseBackup_once
  | PathNamespace
  | ElementWordLexicon
  | AttributeWordLexicon
  | ElementWordQueryThrough
  | PhraseThrough
  | PhraseAround
  | RuleSet
  | FieldPath
  | PathField
  | WordQuery
  | RootField

text \<open>
  A Python value as the code meets it: what \<open>json.loads\<close> returns (\<open>None\<close>,
  booleans, numbers, strings, lists, dicts) and instances of the classes above.
  A dict is an association list in insertion order, read with \<open>map_of\<close> and
  written with \<open>AList.update\<close> (an existing key keeps its place, a new key goes
  last, as in Python). An instance \<open>PObj c args calls\<close> records its class, the
  positional arguments its constructor was called with, and the attribute
  writes and method calls made on it afterwards, in order. Numbers are
  integers; JSON fractions are not modelled.
\<close>

datatype pyval =
    PNone
  | PBool bool
  | PNum int
  | PStr string
  | PList "pyval list"
  | PDict "(string \<times> pyval) list"
  | PObj cls "pyval list" "(string \<times> pyval) list"

type_synonym pydict = "(string \<times> pyval) list"

text \<open>The exceptions the modelled code raises, as values.\<close>

datatype error =
    KeyError string
  | TypeError
  | AttributeError
  | NameError string
  | ValidationError string
  | DuplicateKey
  | UnexpectedManagementAPIResponse string

type_synonym 'a result = "error + 'a"

section \<open>Python expressions that may raise\<close>

definition bindE :: "'a result \<Rightarrow> ('a \<Rightarrow> 'b result) \<Rightarrow> 'b result" where
  "bindE m f = (case m of Inl e \<Rightarrow> Inl e | Inr v \<Rightarrow> f v)"

text \<open>\<open>x[k]\<close> for a string key \<open>k\<close>: only a dict can be subscripted so.\<close>

definition getitem :: "pyval \<Rightarrow> string \<Rightarrow> pyval result" where
  "getitem x k =
     (case x of
        PDict kvs \<Rightarrow> (case map_of kvs k of None \<Rightarrow> Inl (KeyError k) | Some v \<Rightarrow> Inr v)
      | _ \<Rightarrow> Inl TypeError)"

text \<open>\<open>x[k1][k2]\<close>.\<close>

definition getitem2 :: "pyval \<Rightarrow> string \<Rightarrow> string \<Rightarrow> pyval result" where
  "getitem2 x k1 k2 = bindE (getitem x k1) (\<lambda>y. getitem y k2)"

text \<open>
  \<open>k in x\<close> for a string \<open>k\<close>: key membership in a dict, element membership in a
  list, substring test in a string; any other operand raises \<open>TypeError\<close>.
\<close>

definition contains :: "string \<Rightarrow> pyval \<Rightarrow> bool result" where
  "contains k x =
     (case x of
        PDict kvs \<Rightarrow> Inr (k \<in> set (map fst kvs))
      | PList xs \<Rightarrow> Inr (PStr k \<in> set xs)
      | PStr s \<Rightarrow> Inr (sublist k s)
      | _ \<Rightarrow> Inl TypeError)"

definition inE :: "string \<Rightarrow> pyval result \<Rightarrow> bool result" where
  "inE k m = bindE m (contains k)"

text \<open>\<open>for v in x\<close>: the items a loop over \<open>x\<close> visits.\<close>

definition iter :: "pyval \<Rightarrow> (pyval list) result" where
  "iter x =
     (case x of
        PList xs \<Rightarrow> Inr xs
      | PDict kvs \<Rightarrow> Inr (map (\<lambda>kv. PStr (fst kv)) kvs)
      | PStr s \<Rightarrow> Inr (map (\<lambda>c. PStr [c]) s)
      | _ \<Rightarrow> Inl TypeError)"

text \<open>\<open>e == v\<close> and \<open>e is None\<close>, for an expression \<open>e\<close> that may raise.\<close>

definition eqE :: "pyval result \<Rightarrow> pyval \<Rightarrow> bool result" where
  "eqE m v = bindE m (\<lambda>x. Inr (x = v))"

definition is_noneE :: "pyval result \<Rightarrow> bool result" where
  "is_noneE m = bindE m (\<lambda>x. Inr (x = PNone))"

text \<open>\<open>e == 'true'\<close> as a value, as passed to a constructor.\<close>

definition eq_true :: "pyval result \<Rightarrow> pyval result" where
  "eq_true m = bindE m (\<lambda>x. Inr (PBool (x = PStr ''true'')))"

text \<open>\<open>a and b\<close>: \<open>b\<close> is evaluated only when \<open>a\<close> is true.\<close>

definition andE :: "bool result \<Rightarrow> bool result \<Rightarrow> bool result" where
  "andE a b = bindE a (\<lambda>x. if x then b else Inr False)"

text \<open>\<open>if c: t else: e\<close> where the condition may raise.\<close>

definition ifE :: "bool result \<Rightarrow> 'a result \<Rightarrow> 'a result \<Rightarrow> 'a result" where
  "ifE c t e = bindE c (\<lambda>b. if b then t else e)"

text \<open>Arguments are evaluated left to right; the first exception wins.\<close>

fun args :: "(pyval result) list \<Rightarrow> (pyval list) result" where
  "args [] = Inr []"
| "args (a # as) = bindE a (\<lambda>v. bindE (args as) (\<lambda>vs. Inr (v # vs)))"

text \<open>
  Modelled from the spec: the constructors of the entity classes, whose modules
  are imported by the database module but are not among its source files. A
  call \<open>C(a1, ..., an)\<close> "constructs a typed entity from required fields": it
  answers the instance, and raises only what evaluating its arguments raises.
\<close>

definition new :: "cls \<Rightarrow> (pyval result) list \<Rightarrow> pyval result" where
  "new c as = bindE (args as) (\<lambda>vs. Inr (PObj c vs []))"

text \<open>A loop body run over each item in turn, collecting \<open>olist\<close>.\<close>

fun mapE :: "('a \<Rightarrow> 'b result) \<Rightarrow> 'a list \<Rightarrow> ('b list) result" where
  "mapE f [] = Inr []"
| "mapE f (x # xs) = bindE (f x) (\<lambda>y. bindE (mapE f xs) (\<lambda>ys. Inr (y # ys)))"

text \<open>
  An attribute write (\<open>temp._config['backup-id'] = v\<close>) or a method call
  (\<open>temp.unmarshal(field)\<close>) on an instance. What it does inside the instance
  belongs to the entity classes; the model records it on the instance, with
  its argument, and takes it not to raise. On a value that is not an instance
  it raises \<open>AttributeError\<close>.
\<close>

fun record_call :: "string \<Rightarrow> pyval \<Rightarrow> pyval \<Rightarrow> pyval result" where
  "record_call k v (PObj c as calls) = Inr (PObj c as (calls @ [(k, v)]))"
| "record_call k v _ = Inl AttributeError"

section \<open>The per-slot decoders of \<open>Database.unmarshal\<close>\<close>

definition decode_merge_blackout :: "pyval \<Rightarrow> pyval result" where
  "decode_merge_blackout blackout =
     ifE (andE (eqE (getitem blackout ''blackout-type'') (PStr ''recurring''))
               (is_noneE (getitem blackout ''period'')))
       (new MergeBlackout_recurringAllDay
          [getitem blackout ''merge-priority'',
           getitem blackout ''limit'',
           getitem blackout ''day''])
    (ifE (andE (eqE (getitem blackout ''blackout-type'') (PStr ''recurring''))
               (inE ''duration'' (getitem blackout ''period'')))
       (new MergeBlackout_recurringDuration
          [getitem blackout ''merge-priority'',
           getitem blackout ''limit'',
           getitem blackout ''day'',
           getitem2 blackout ''period'' ''start-time'',
           getitem2 blackout ''period'' ''duration''])
    (ifE (andE (eqE (getitem blackout ''blackout-type'') (PStr ''recurring''))
               (inE ''end-time'' (getitem blackout ''period'')))
       (new MergeBlackout_recurringStartEnd
          [getitem blackout ''merge-priority'',
           getitem blackout ''limit'',
           getitem blackout ''day'',
           getitem2 blackout ''period'' ''start-time'',
           getitem2 blackout ''period'' ''end-time''])
    (ifE (andE (eqE (getitem blackout ''blackout-type'') (PStr ''once''))
               (inE ''end-time'' (getitem blackout ''period'')))
       (new MergeBlackout_oneTimeStartEnd
          [getitem blackout ''merge-priority'',
           getitem blackout ''limit'',
           getitem2 blackout ''period'' ''start-date'',
           getitem2 blackout ''period'' ''start-time'',
           getitem2 blackout ''period'' ''end-date'',
           getitem2 blackout ''period'' ''end-time''])
    (ifE (andE (eqE (getitem blackout ''blackout-type'') (PStr ''once''))
               (inE ''duration'' (getitem blackout ''period'')))
       (new MergeBlackout_oneTimeDuration
          [getitem blackout ''merge-priority'',
           getitem blackout ''limit'',
           getitem2 blackout ''period'' ''start-date'',
           getitem2 blackout ''period'' ''start-time'',
           getitem2 blackout ''period'' ''duration''])
       (Inl (UnexpectedManagementAPIResponse ''Unparseable merge blackout period''))))))"

definition decode_element_range_index :: "pyval \<Rightarrow> pyval result" where
  "decode_element_range_index index =
     new ElementRangeIndex
       [getitem index ''scalar-type'',
        getitem index ''namespace-uri'',
        getitem index ''localname'',
        getitem index ''collation'',
        eq_true (getitem index ''range-value-positions''),
        getitem index ''invalid-values'']"

definition decode_field_range_index :: "pyval \<Rightarrow> pyval result" where
  "decode_field_range_index index =
     new FieldRangeIndex
       [getitem index ''scalar-type'',
        getitem index ''field-name'',
        getitem index ''collation'',
        eq_true (getitem index ''range-value-positions''),
        getitem index ''invalid-values'']"

definition decode_attribute_range_index :: "pyval \<Rightarrow> pyval result" where
  "decode_attribute_range_index index =
     new AttributeRangeIndex
       [getitem index ''scalar-type'',
        getitem index ''parent-namespace-uri'',
        getitem index ''parent-localname'',
        getitem index ''namespace-uri'',
        getitem index ''localname'',
        getitem index ''collation'',
        eq_true (getitem index ''range-value-positions''),
        getitem index ''invalid-values'']"

definition decode_path_range_index :: "pyval \<Rightarrow> pyval result" where
  "decode_path_range_index index =
     new PathRangeIndex
       [getitem index ''scalar-type'',
        getitem index ''path-expression'',
        getitem index ''collation'',
        eq_true (getitem index ''range-value-positions''),
        getitem index ''invalid-values'']"

definition decode_geospatial_element_index :: "pyval \<Rightarrow> pyval result" where
  "decode_geospatial_element_index index =
     new GeospatialElementIndex
       [getitem index ''namespace-uri'',
        getitem index ''localname'',
        getitem index ''coordinate-system'',
        getitem index ''point-format'',
        eq_true (getitem index ''range-value-positions''),
        getitem index ''invalid-values'']"

definition decode_geospatial_path_index :: "pyval \<Rightarrow> pyval result" where
  "decode_geospatial_path_index index =
     new GeospatialPathIndex
       [getitem index ''path-expression'',
        getitem index ''coordinate-system'',
        getitem index ''point-format'',
        eq_true (getitem index ''range-value-positions''),
        getitem index ''invalid-values'']"

definition decode_geospatial_element_child_index :: "pyval \<Rightarrow> pyval result" where
  "decode_geospatial_element_child_index index =
     new GeospatialElementChildIndex
       [getitem index ''parent-namespace-uri'',
        getitem index ''parent-localname'',
        getitem index ''namespace-uri'',
        getitem index ''localname'',
        getitem index ''coordinate-system'',
        getitem index ''point-format'',
        eq_true (getitem index ''range-value-positions''),
        getitem index ''invalid-values'']"

definition decode_geospatial_element_pair_index :: "pyval \<Rightarrow> pyval result" where
  "decode_geospatial_element_pair_index index =
     new GeospatialElementPairIndex
       [getitem index ''parent-namespace-uri'',
        getitem index ''parent-localname'',
        getitem index ''longitude-namespace-uri'',
        getitem index ''longitude-localname'',
        getitem index ''latitude-namespace-uri'',
        getitem index ''latitude-localname'',
        getitem index ''coordinate-system'',
        eq_true (getitem index ''range-value-positions''),
        getitem index ''invalid-values'']"

definition decode_geospatial_element_attribute_pair_index :: "pyval \<Rightarrow> pyval result" where
  "decode_geospatial_element_attribute_pair_index index =
     new GeospatialElementAttributePairIndex
       [getitem index ''parent-namespace-uri'',
        getitem index ''parent-localname'',
        getitem index ''longitude-namespace-uri'',
        getitem index ''longitude-localname'',
        getitem index ''latitude-namespace-uri'',
        getitem index ''latitude-localname'',
        getitem index ''coordinate-system'',
        eq_true (getitem index ''range-value-positions''),
        getitem index ''invalid-values'']"

definition decode_fragment_root :: "pyval \<Rightarrow> pyval result" where
  "decode_fragment_root root =
     new FragmentRoot
       [getitem root ''namespace-uri'',
        getitem root ''localname'']"

definition decode_fragment_parent :: "pyval \<Rightarrow> pyval result" where
  "decode_fragment_parent root =
     new FragmentParent
       [getitem root ''namespace-uri'',
        getitem root ''localname'']"

text \<open>
  \<open>incremental = None; if 'incremental' in backup: incremental = backup['incremental']\<close>
\<close>

definition incremental :: "pyval \<Rightarrow> pyval result" where
  "incremental backup =
     ifE (contains ''incremental'' backup) (getitem backup ''incremental'') (Inr PNone)"

text \<open>
  The body of the loop over \<open>'database-backup'\<close>: \<open>incremental\<close> is computed
  first, the tag selects the factory, and \<open>temp._config['backup-id']\<close> is
  written after the instance exists.
\<close>

definition decode_backup :: "pyval \<Rightarrow> pyval result" where
  "decode_backup backup =
     bindE (incremental backup) (\<lambda>_.
     bindE
      (ifE (eqE (getitem backup ''backup-type'') (PStr ''minutely''))
         (new ScheduledDatabaseBackup_minutely
          [getitem backup ''backup-directory'',
           getitem backup ''backup-period'',
           getitem backup ''max-backups'',
           getitem backup ''backup-security-database'',
           getitem backup ''backup-schemas-database'',
           getitem backup ''backup-triggers-database'',
           getitem backup ''include-replicas'',
           incremental backup,
           getitem backup ''journal-archiving'',
           getitem backup ''journal-archive-path'',
           getitem backup ''journal-archive-lag-limit''])
      (ifE (eqE (getitem backup ''backup-type'') (PStr ''hourly''))
         (new ScheduledDatabaseBackup_hourly
          [getitem backup ''backup-directory'',
           getitem backup ''backup-period'',
           getitem backup ''backup-start-time'',
           getitem backup ''max-backups'',
           getitem backup ''backup-security-database'',
           getitem backup ''backup-schemas-database'',
           getitem backup ''backup-triggers-database'',
           getitem backup ''include-replicas'',
           incremental backup,
           getitem backup ''journal-archiving'',
           getitem backup ''journal-archive-path'',
           getitem backup ''journal-archive-lag-limit''])
      (ifE (eqE (getitem backup ''backup-type'') (PStr ''daily''))
         (new ScheduledDatabaseBackup_daily
          [getitem backup ''backup-directory'',
           getitem backup ''backup-period'',
           getitem backup ''backup-start-time'',
           getitem backup ''max-backups'',
           getitem backup ''backup-security-database'',
           getitem backup ''backup-schemas-database'',
           getitem backup ''backup-triggers-database'',
           getitem backup ''include-replicas'',
           incremental backup,
           getitem backup ''journal-archiving'',
           getitem backup ''journal-archive-path'',
           getitem backup ''journal-archive-lag-limit''])
      (ifE (eqE (getitem backup ''backup-type'') (PStr ''weekly''))
         (new ScheduledDatabaseBackup_weekly
          [getitem backup ''backup-directory'',
           getitem backup ''backup-period'',
           getitem backup ''backup-day'',
           getitem backup ''backup-start-time'',
           getitem backup ''max-backups'',
           getitem backup ''backup-security-database'',
           getitem backup ''backup-schemas-database'',
           getitem backup ''backup-triggers-database'',
           getitem backup ''include-replicas'',
           incremental backup,
           getitem backup ''journal-archiving'',
           getitem backup ''journal-archive-path'',
           getitem backup ''journal-archive-lag-limit''])
      (ifE (eqE (getitem backup ''backup-type'') (PStr ''monthly''))
         (new ScheduledDatabaseBackup_monthly
          [getitem backup ''backup-directory'',
           getitem backup ''backup-period'',
           getitem backup ''backup-month-day'',
           getitem backup ''backup-start-time'',
           getitem backup ''max-backups'',
           getitem backup ''backup-security-database'',
           getitem backup ''backup-schemas-database'',
           getitem backup ''backup-triggers-database'',
           getitem backup ''include-replicas'',
           incremental backup,
           getitem backup ''journal-archiving'',
           getitem backup ''journal-archive-path'',
           getitem backup ''journal-archive-lag-limit''])
      (ifE (eqE (getitem backup ''backup-type'') (PStr ''once''))
         (new ScheduledDatabaseBackup_once
          [getitem backup ''backup-directory'',
           getitem backup ''backup-start-date'',
           getitem backup ''backup-start-time'',
           getitem backup ''max-backups'',
           getitem backup ''backup-security-database'',
           getitem backup ''backup-schemas-database'',
           getitem backup ''backup-triggers-database'',
           getitem backup ''include-replicas'',
           incremental backup,
           getitem backup ''journal-archiving'',
           getitem backup ''journal-archive-path'',
           getitem backup ''journal-archive-lag-limit''])
         (Inl (UnexpectedManagementAPIResponse ''Unparseable backup''))))))))
      (\<lambda>temp. bindE (getitem backup ''backup-id'')
         (\<lambda>i. record_call ''_config[backup-id]'' i temp)))"

definition decode_path_namespace :: "pyval \<Rightarrow> pyval result" where
  "decode_path_namespace path =
     new PathNamespace
       [getitem path ''prefix'',
        getitem path ''namespace-uri'']"

definition decode_element_word_lexicon :: "pyval \<Rightarrow> pyval result" where
  "decode_element_word_lexicon path =
     new ElementWordLexicon
       [getitem path ''namespace-uri'',
        getitem path ''localname'',
        getitem path ''collation'']"

definition decode_attribute_word_lexicon :: "pyval \<Rightarrow> pyval result" where
  "decode_attribute_word_lexicon path =
     new AttributeWordLexicon
       [getitem path ''parent-namespace-uri'',
        getitem path ''parent-localname'',
        getitem path ''namespace-uri'',
        getitem path ''localname'',
        getitem path ''collation'']"

definition decode_element_word_query_through :: "pyval \<Rightarrow> pyval result" where
  "decode_element_word_query_through path =
     new ElementWordQueryThrough
       [getitem path ''namespace-uri'',
        getitem path ''localname'']"

definition decode_phrase_through :: "pyval \<Rightarrow> pyval result" where
  "decode_phrase_through path =
     new PhraseThrough
       [getitem path ''namespace-uri'',
        getitem path ''localname'']"

definition decode_phrase_around :: "pyval \<Rightarrow> pyval result" where
  "decode_phrase_around path =
     new PhraseAround
       [getitem path ''namespace-uri'',
        getitem path ''localname'']"

definition decode_ruleset :: "pyval \<Rightarrow> pyval result" where
  "decode_ruleset path =
     new RuleSet
       [getitem path ''location'']"

text \<open>
  The body of the loop over \<open>'field'\<close>. \<open>field['field-name']\<close> is read first;
  \<open>root\<close> is \<open>False\<close> unless the record has \<open>'include-root'\<close>. The call
  \<open>temp.unmarshal(field)\<close> is a method of the \<open>field\<close> module; it is recorded
  on the instance with the record it was given.
\<close>

definition decode_field_path :: "pyval \<Rightarrow> pyval result" where
  "decode_field_path path =
     new FieldPath [getitem path ''path'', getitem path ''weight'']"

definition include_root :: "pyval \<Rightarrow> pyval result" where
  "include_root field =
     ifE (contains ''include-root'' field)
       (eq_true (getitem field ''include-root''))
       (Inr (PBool False))"

definition decode_field :: "pyval \<Rightarrow> pyval result" where
  "decode_field field =
     bindE (getitem field ''field-name'') (\<lambda>name.
     bindE
       (ifE (contains ''field-path'' field)
          (bindE (bindE (getitem field ''field-path'') iter) (\<lambda>items.
           bindE (mapE decode_field_path items) (\<lambda>paths.
             new PathField [Inr name, Inr (PList paths)])))
          (bindE (include_root field) (\<lambda>root.
            ifE (eqE (getitem field ''field-name'') (PStr []))
              (new WordQuery [Inr root])
              (new RootField [Inr name, Inr root]))))
       (\<lambda>temp. record_call ''unmarshal'' field temp))"

section \<open>The Database class\<close>

text \<open>
  An instance has the attributes \<open>name\<close>, \<open>etag\<close>, \<open>hostname\<close> and \<open>_config\<close>
  (here \<open>config\<close>). \<open>Database(name)\<close> fills \<open>_config\<close> with six keys.
\<close>

record database =
  name :: pyval
  etag :: pyval
  hostname :: string
  config :: pydict

definition Database :: "string \<Rightarrow> database" where
  "Database n =
     \<lparr>name = PStr n,
      etag = PNone,
      hostname = ''$ML-LOCALHOST'',
      config =
        [(''database-name'', PStr n),
         (''forest'', PList [PStr (n @ ''-Forest-001'')]),
         (''security-database'', PStr ''Security''),
         (''schema-database'', PStr ''Schemas''),
         (''enabled'', PBool True),
         (''language'', PStr ''en'')]\<rparr>"

subsection \<open>unmarshal\<close>

text \<open>
  One block of \<open>unmarshal\<close>:
  \<^verbatim>\<open>olist = []
if key in result._config:
    for r in result._config[key]:
        temp = ...; olist.append(temp)
result._config[key] = olist\<close>
  The key is rebound only when every record of the slot has been decoded.
\<close>

definition slot_items :: "pydict \<Rightarrow> string \<Rightarrow> (pyval \<Rightarrow> pyval result) \<Rightarrow> (pyval list) result" where
  "slot_items cfg key dec =
     (case map_of cfg key of
        None \<Rightarrow> Inr []
      | Some v \<Rightarrow> bindE (iter v) (mapE dec))"

definition unmarshal_slot :: "string \<Rightarrow> (pyval \<Rightarrow> pyval result) \<Rightarrow> pydict \<Rightarrow> pydict result" where
  "unmarshal_slot key dec cfg =
     bindE (slot_items cfg key dec) (\<lambda>olist. Inr (AList.update key (PList olist) cfg))"

text \<open>The blocks of \<open>unmarshal\<close>, in the order the source runs them.\<close>

definition slot_table :: "(string \<times> (pyval \<Rightarrow> pyval result)) list" where
  "slot_table =
     [(''range-element-index'', decode_element_range_index),
      (''range-field-index'', decode_field_range_index),
      (''range-element-attribute-index'', decode_attribute_range_index),
      (''range-path-index'', decode_path_range_index),
      (''geospatial-element-index'', decode_geospatial_element_index),
      (''geospatial-path-index'', decode_geospatial_path_index),
      (''geospatial-element-child-index'', decode_geospatial_element_child_index),
      (''geospatial-element-pair-index'', decode_geospatial_element_pair_index),
      (''geospatial-element-attribute-pair-index'',
         decode_geospatial_element_attribute_pair_index),
      (''fragment-root'', decode_fragment_root),
      (''fragment-parent'', decode_fragment_parent),
      (''merge-blackout'', decode_merge_blackout),
      (''database-backup'', decode_backup),
      (''path-namespace'', decode_path_namespace),
      (''element-word-lexicon'', decode_element_word_lexicon),
      (''element-attribute-word-lexicon'', decode_attribute_word_lexicon),
      (''element-word-query-through'', decode_element_word_query_through),
      (''phrase-through'', decode_phrase_through),
      (''phrase-around'', decode_phrase_around),
      (''default-ruleset'', decode_ruleset),
      (''field'', decode_field)]"

text \<open>
  Running the blocks on the dict. The dict is mutated in place, so when a block
  raises, the blocks before it have already rebound their keys: the second
  component is the dict as the exception leaves it.
\<close>

fun run_slots :: "(string \<times> (pyval \<Rightarrow> pyval result)) list \<Rightarrow> pydict \<Rightarrow> error option \<times> pydict" where
  "run_slots [] cfg = (None, cfg)"
| "run_slots ((key, dec) # rest) cfg =
     (case unmarshal_slot key dec cfg of
        Inl e \<Rightarrow> (Some e, cfg)
      | Inr cfg' \<Rightarrow> run_slots rest cfg')"

text \<open>
  \<open>Database.unmarshal(config)\<close>. \<open>result._config = config\<close> makes the new
  instance share the caller's dict, so the call returns, besides the instance
  or the exception, the caller's dict as the call leaves it.
\<close>

definition unmarshal :: "pydict \<Rightarrow> database result \<times> pydict" where
  "unmarshal cfg =
     (let result = Database ''temp'' in
      case getitem (PDict cfg) ''database-name'' of
        Inl e \<Rightarrow> (Inl e, cfg)
      | Inr n \<Rightarrow>
          (case run_slots slot_table cfg of
             (Some e, cfg') \<Rightarrow> (Inl e, cfg')
           | (None, cfg') \<Rightarrow> (Inr (result\<lparr>config := cfg', name := n\<rparr>), cfg')))"

subsection \<open>marshal\<close>

text \<open>The keys \<open>marshal\<close> encodes through the \<open>_config\<close> attribute of each item.\<close>

definition config_slots :: "string list" where
  "config_slots =
     [''range-element-index'',
      ''range-field-index'',
      ''range-element-attribute-index'',
      ''range-path-index'',
      ''geospatial-element-index'',
      ''geospatial-path-index'',
      ''geospatial-element-child-index'',
      ''geospatial-element-pair-index'',
      ''geospatial-element-attribute-pair-index'',
      ''fragment-root'',
      ''fragment-parent'',
      ''element-word-lexicon'',
      ''element-attribute-word-lexicon'',
      ''element-word-query-through'',
      ''phrase-through'',
      ''phrase-around'',
      ''default-ruleset'',
      ''path-namespace'',
      ''database-backup'',
      ''merge-blackout'']"

text \<open>
  \<open>index._config\<close> and \<open>field.marshal()\<close> belong to the entity classes. What they
  answer for an instance is given by the parameters \<open>cf\<close> and \<open>fm\<close>; on a value
  that is not an instance both raise \<open>AttributeError\<close>.
\<close>

definition attr_config :: "(pyval \<Rightarrow> pyval) \<Rightarrow> pyval \<Rightarrow> pyval result" where
  "attr_config cf x = (case x of PObj c as calls \<Rightarrow> Inr (cf x) | _ \<Rightarrow> Inl AttributeError)"

definition call_marshal :: "(pyval \<Rightarrow> pyval) \<Rightarrow> pyval \<Rightarrow> pyval result" where
  "call_marshal fm x = (case x of PObj c as calls \<Rightarrow> Inr (fm x) | _ \<Rightarrow> Inl AttributeError)"

definition marshal_key :: "(pyval \<Rightarrow> pyval) \<Rightarrow> (pyval \<Rightarrow> pyval) \<Rightarrow> pydict \<Rightarrow> string \<Rightarrow> (string \<times> pyval) result" where
  "marshal_key cf fm cfg key =
     (if key \<in> set config_slots then
        bindE (bindE (getitem (PDict cfg) key) iter) (\<lambda>items.
        bindE (mapE (attr_config cf) items) (\<lambda>jlist. Inr (key, PList jlist)))
      else if key = ''field'' then
        bindE (bindE (getitem (PDict cfg) ''field'') iter) (\<lambda>items.
        bindE (mapE (call_marshal fm) items) (\<lambda>fstruct. Inr (key, PList fstruct)))
      else
        bindE (getitem (PDict cfg) key) (\<lambda>v. Inr (key, v)))"

definition marshal :: "(pyval \<Rightarrow> pyval) \<Rightarrow> (pyval \<Rightarrow> pyval) \<Rightarrow> database \<Rightarrow> pydict result" where
  "marshal cf fm self = mapE (marshal_key cf fm (config self)) (map fst (config self))"

subsection \<open>Slot getters\<close>





















text \<open>
  \<open>element_word_query_throughs\<close> tests the key \<open>'element-word-query-through'\<close>
  and then reads the key \<open>'element-word-query_through'\<close>, with an underscore:
  \<^verbatim>\<open>if 'element-word-query-through' in self._config:
    return self._config['element-word-query_through']
return None\<close>
\<close>

definition element_word_query_throughs :: "database \<Rightarrow> pyval result" where
  "element_word_query_throughs self =
     (if ''element-word-query-through'' \<in> set (map fst (config self))
      then getitem (PDict (config self)) ''element-word-query_through''
      else Inr PNone)"

subsection \<open>Fields and the word query\<close>

definition is_Field :: "pyval \<Rightarrow> bool" where
  "is_Field x = (case x of PObj c as calls \<Rightarrow> c \<in> {PathField, WordQuery, RootField} | _ \<Rightarrow> False)"

definition is_WordQuery :: "pyval \<Rightarrow> bool" where
  "is_WordQuery x = (case x of PObj c as calls \<Rightarrow> c = WordQuery | _ \<Rightarrow> False)"

text \<open>
  \<open>item.field_name()\<close> is a method of the \<open>field\<close> module. The database code
  tests its answer against \<open>None\<close> in \<open>fields\<close>, \<open>add_field\<close> and \<open>word_query\<close>
  and against the empty string in \<open>set_word_query\<close>; what it answers for an
  instance of a field class is the parameter \<open>fname\<close>. A value without the
  method raises \<open>AttributeError\<close>.
\<close>

definition field_name :: "(pyval \<Rightarrow> pyval) \<Rightarrow> pyval \<Rightarrow> pyval result" where
  "field_name fname x = (if is_Field x then Inr (fname x) else Inl AttributeError)"

text \<open>
  Modelled from the spec: \<open>assert_type\<close> of the \<open>validators\<close> module, which is
  imported but not among the source files. It "fails with TypeMismatch if
  element's runtime type is not a subtype of expectedType" and otherwise
  answers the value. The expected class is given as its instance test.
\<close>

definition assert_type :: "pyval \<Rightarrow> (pyval \<Rightarrow> bool) \<Rightarrow> pyval result" where
  "assert_type v isa = (if isa v then Inr v else Inl (ValidationError ''TypeMismatch''))"

text \<open>
  \<open>fields\<close>: the items of the \<open>'field'\<close> key whose \<open>field_name()\<close> is not
  \<open>None\<close>, or \<open>None\<close> when the key is absent.
\<close>

fun fields_loop :: "(pyval \<Rightarrow> pyval) \<Rightarrow> pyval list \<Rightarrow> (pyval list) result" where
  "fields_loop fname [] = Inr []"
| "fields_loop fname (field # rest) =
     bindE (field_name fname field) (\<lambda>n.
     bindE (fields_loop fname rest) (\<lambda>fs.
       Inr (if n \<noteq> PNone then field # fs else fs)))"

definition fields :: "(pyval \<Rightarrow> pyval) \<Rightarrow> database \<Rightarrow> pyval result" where
  "fields fname self =
     (case map_of (config self) ''field'' of
        Some v \<Rightarrow> bindE (bindE (iter v) (fields_loop fname)) (\<lambda>fs. Inr (PList fs))
      | None \<Rightarrow> Inr PNone)"

text \<open>
  \<open>word_query\<close>: the first item of the \<open>'field'\<close> key whose \<open>field_name()\<close> is
  \<open>None\<close>, else a fresh \<open>WordQuery(False)\<close>.
\<close>

fun word_query_loop :: "(pyval \<Rightarrow> pyval) \<Rightarrow> pyval list \<Rightarrow> pyval result" where
  "word_query_loop fname [] = new WordQuery [Inr (PBool False)]"
| "word_query_loop fname (field # rest) =
     bindE (field_name fname field) (\<lambda>n.
       if n = PNone then Inr field else word_query_loop fname rest)"

definition word_query :: "(pyval \<Rightarrow> pyval) \<Rightarrow> database \<Rightarrow> pyval result" where
  "word_query fname self =
     (case map_of (config self) ''field'' of
        Some v \<Rightarrow> bindE (iter v) (word_query_loop fname)
      | None \<Rightarrow> new WordQuery [Inr (PBool False)])"

text \<open>
  \<open>set_word_query\<close>. In the loop, the statement
  \<open>items[index] = assert_type(word_query, WordQuery)\<close> evaluates its right-hand
  side and then the name \<open>items\<close>, which is bound nowhere (the list is called
  \<open>fields\<close>): the store raises \<open>NameError\<close>, so \<open>changed = True\<close> is never
  reached. A mutator answers its outcome and the instance as it leaves it.
\<close>

fun set_word_query_loop :: "(pyval \<Rightarrow> pyval) \<Rightarrow> pyval \<Rightarrow> pyval list \<Rightarrow> bool \<Rightarrow> bool result" where
  "set_word_query_loop fname wq [] changed = Inr changed"
| "set_word_query_loop fname wq (item # rest) changed =
     bindE (eqE (field_name fname item) (PStr [])) (\<lambda>b.
       if b then bindE (assert_type wq is_WordQuery) (\<lambda>v. Inl (NameError ''items''))
       else set_word_query_loop fname wq rest changed)"

text \<open>\<open>xs.append(v)\<close>: only a list has the method.\<close>

definition append_item :: "pyval \<Rightarrow> pyval \<Rightarrow> pyval result" where
  "append_item xs v = (case xs of PList ys \<Rightarrow> Inr (PList (ys @ [v])) | _ \<Rightarrow> Inl AttributeError)"

definition set_word_query :: "(pyval \<Rightarrow> pyval) \<Rightarrow> pyval \<Rightarrow> database \<Rightarrow> unit result \<times> database" where
  "set_word_query fname wq self =
     (let fields0 = (case map_of (config self) ''field'' of Some v \<Rightarrow> v | None \<Rightarrow> PList []) in
      case bindE (bindE (iter fields0) (\<lambda>items. set_word_query_loop fname wq items False))
             (\<lambda>changed.
                if \<not> changed
                then (case fields0 of
                        PList ys \<Rightarrow> bindE (assert_type wq is_WordQuery) (\<lambda>v. append_item fields0 v)
                      | _ \<Rightarrow> Inl AttributeError)
                else Inr fields0) of
        Inl e \<Rightarrow> (Inl e, self)
      | Inr fields1 \<Rightarrow> (Inr (), self\<lparr>config := AList.update ''field'' fields1 (config self)\<rparr>))"

text \<open>
  Modelled from the spec: the natural key of a slot's elements, "for slot
  families with a natural key (e.g., backup id, field name)". For the
  \<open>'field'\<close> slot it is the field name; the other slots are given none.
\<close>

definition natural_key :: "(pyval \<Rightarrow> pyval) \<Rightarrow> string \<Rightarrow> pyval \<Rightarrow> pyval option" where
  "natural_key fname slot x = (if slot = ''field'' then Some (fname x) else None)"

text \<open>
  Modelled from the spec: \<open>add_to_property_list\<close> of the class \<open>PropertyLists\<close>
  (module \<open>utilities\<close>), which \<open>Database\<close> inherits and which is not among the
  source files. \<open>add(slot, element, expectedType)\<close> "appends element; fails
  with TypeMismatch if element's runtime type is not a subtype of
  expectedType; returns the updated owner"; and "no two elements may share
  that key -- attempting to add a duplicate is rejected", with \<open>DuplicateKey\<close>
  "surfaced to caller, slot left unmodified".
\<close>

definition add_to_property_list ::
  "(pyval \<Rightarrow> pyval) \<Rightarrow> string \<Rightarrow> pyval \<Rightarrow> (pyval \<Rightarrow> bool) \<Rightarrow> database \<Rightarrow> unit result \<times> database" where
  "add_to_property_list fname slot v isa self =
     (let cur = (case map_of (config self) slot of Some l \<Rightarrow> l | None \<Rightarrow> PList []) in
      case bindE (assert_type v isa) (\<lambda>value.
           bindE (iter cur) (\<lambda>items.
             if natural_key fname slot value \<noteq> None
                \<and> natural_key fname slot value \<in> set (map (natural_key fname slot) items)
             then Inl DuplicateKey
             else append_item cur value)) of
        Inl e \<Rightarrow> (Inl e, self)
      | Inr l \<Rightarrow> (Inr (), self\<lparr>config := AList.update slot l (config self)\<rparr>))"

text \<open>
  \<open>add_field\<close>: the type check, the test that the name is not \<open>None\<close>, then
  \<open>add_to_property_list('field', field, Field)\<close>.
\<close>

definition add_field :: "(pyval \<Rightarrow> pyval) \<Rightarrow> pyval \<Rightarrow> database \<Rightarrow> unit result \<times> database" where
  "add_field fname field self =
     (case bindE (assert_type field is_Field) (\<lambda>value.
           bindE (field_name fname value) (\<lambda>n.
             if n = PNone
             then Inl (ValidationError ''Fields must have a non-empty name'')
             else Inr ())) of
        Inl e \<Rightarrow> (Inl e, self)
      | Inr u \<Rightarrow> add_to_property_list fname ''field'' field is_Field self)"

section \<open>Example wire documents\<close>

text \<open>
  Three recurring merge blackouts: an all-day one (\<open>period\<close> is \<open>null\<close>), one
  whose period has \<open>duration\<close> and \<open>start-time\<close>, and one whose period has both
  \<open>duration\<close> and \<open>end-time\<close>.
\<close>

definition all_day_record :: pydict where
  "all_day_record =
     [(''blackout-type'', PStr ''recurring''),
      (''period'', PNone),
      (''merge-priority'', PStr ''lower''),
      (''limit'', PNum 4),
      (''day'', PList [PStr ''monday''])]"

definition duration_period :: pydict where
  "duration_period = [(''duration'', PStr ''P1H''), (''start-time'', PStr ''08:00:00'')]"

definition duration_record :: pydict where
  "duration_record =
     [(''blackout-type'', PStr ''recurring''),
      (''period'', PDict duration_period),
      (''merge-priority'', PStr ''lower''),
      (''limit'', PNum 4),
      (''day'', PList [PStr ''monday''])]"

definition both_period :: pydict where
  "both_period =
     [(''start-time'', PStr ''08:00:00''),
      (''end-time'', PStr ''09:00:00''),
      (''duration'', PStr ''P1H'')]"

definition both_record :: pydict where
  "both_record =
     [(''blackout-type'', PStr ''recurring''),
      (''period'', PDict both_period),
      (''merge-priority'', PStr ''lower''),
      (''limit'', PNum 4),
      (''day'', PList [PStr ''monday''])]"

definition blackout_doc :: pydict where
  "blackout_doc =
     [(''database-name'', PStr ''db''),
      (''merge-blackout'', PList [PDict all_day_record, PDict duration_record, PDict both_record])]"

text \<open>A one-time merge blackout whose \<open>period\<close> is \<open>null\<close>.\<close>

definition once_null_record :: pydict where
  "once_null_record =
     [(''blackout-type'', PStr ''once''),
      (''period'', PNone),
      (''merge-priority'', PStr ''lower''),
      (''limit'', PNum 4)]"

definition once_null_doc :: pydict where
  "once_null_doc =
     [(''database-name'', PStr ''db''),
      (''merge-blackout'', PList [PDict once_null_record])]"

text \<open>
  Two merge blackouts that match no rule and do reach the final \<open>else\<close>: an
  unknown tag with a \<open>null\<close> period, and a one-time blackout whose period is a
  record with neither \<open>duration\<close> nor \<open>end-time\<close>.
\<close>

definition unknown_null_record :: pydict where
  "unknown_null_record = [(''blackout-type'', PStr ''weekly''), (''period'', PNone)]"

definition once_empty_record :: pydict where
  "once_empty_record = [(''blackout-type'', PStr ''once''), (''period'', PDict [])]"

text \<open>
  A document with one element range index and a merge blackout whose tag is
  not a known one.
\<close>

definition range_record :: pydict where
  "range_record =
     [(''scalar-type'', PStr ''int''),
      (''namespace-uri'', PStr []),
      (''localname'', PStr ''a''),
      (''collation'', PStr []),
      (''range-value-positions'', PStr ''true''),
      (''invalid-values'', PStr ''reject'')]"

definition bogus_record :: pydict where
  "bogus_record = [(''blackout-type'', PStr ''bogus'')]"

definition bogus_doc :: pydict where
  "bogus_doc =
     [(''database-name'', PStr ''db''),
      (''range-element-index'', PList [PDict range_record]),
      (''merge-blackout'', PList [PDict all_day_record, PDict bogus_record])]"

text \<open>The dict \<open>bogus_doc\<close> as the failed call leaves it.\<close>

definition bogus_doc_after :: pydict where
  "bogus_doc_after =
     [(''database-name'', PStr ''db''),
      (''range-element-index'',
         PList [PObj ElementRangeIndex
                  [PStr ''int'', PStr [], PStr ''a'', PStr [], PBool True, PStr ''reject''] []]),
      (''merge-blackout'', PList [PDict all_day_record, PDict bogus_record]),
      (''range-field-index'', PList []),
      (''range-element-attribute-index'', PList []),
      (''range-path-index'', PList []),
      (''geospatial-element-index'', PList []),
      (''geospatial-path-index'', PList []),
      (''geospatial-element-child-index'', PList []),
      (''geospatial-element-pair-index'', PList []),
      (''geospatial-element-attribute-pair-index'', PList []),
      (''fragment-root'', PList []),
      (''fragment-parent'', PList [])]"

text \<open>A scheduled backup whose \<open>backup-type\<close> is not a known one.\<close>

definition yearly_record :: pydict where
  "yearly_record = [(''backup-type'', PStr ''yearly''), (''backup-id'', PNum 1)]"

definition yearly_doc :: pydict where
  "yearly_doc =
     [(''database-name'', PStr ''db''),
      (''database-backup'', PList [PDict yearly_record])]"

text \<open>A document with no slot key at all, and the instance it unmarshals to.\<close>

definition minimal_doc :: pydict where
  "minimal_doc = [(''database-name'', PStr ''db'')]"


text \<open>
  Three field records: one with \<open>field-path\<close> and an empty name, one with an
  empty name only, one with a name.
\<close>

definition path_field_record :: pydict where
  "path_field_record =
     [(''field-name'', PStr []),
      (''field-path'', PList [PDict [(''path'', PStr ''/a''), (''weight'', PNum 1)]])]"

definition word_query_record :: pydict where
  "word_query_record = [(''field-name'', PStr []), (''include-root'', PStr ''true'')]"

definition root_field_record :: pydict where
  "root_field_record = [(''field-name'', PStr ''title'')]"

definition field_doc :: pydict where
  "field_doc =
     [(''database-name'', PStr ''db''),
      (''field'',
         PList [PDict path_field_record, PDict word_query_record, PDict root_field_record])]"

text \<open>Two word query settings that differ in value.\<close>

definition word_query_1 :: pyval where
  "word_query_1 = PObj WordQuery [PBool True] []"

definition word_query_2 :: pyval where
  "word_query_2 = PObj WordQuery [PBool False] []"

text \<open>
  A sample answer of \<open>field_name()\<close>: the name a \<open>RootField\<close> or \<open>PathField\<close> was
  constructed with, and \<open>None\<close> for a \<open>WordQuery\<close>. Two fields of the same name.
\<close>

definition constructed_name :: "pyval \<Rightarrow> pyval" where
  "constructed_name x =
     (case x of
        PObj c (n # as) calls \<Rightarrow> (if c = WordQuery then PNone else n)
      | _ \<Rightarrow> PNone)"

definition title_root_field :: pyval where
  "title_root_field = PObj RootField [PStr ''title'', PBool False] []"

definition title_path_field :: pyval where
  "title_path_field = PObj PathField [PStr ''title'', PList []] []"

subsection \<open>Predicates used in the statements\<close>

definition is_obj :: "pyval \<Rightarrow> bool" where
  "is_obj x = (case x of PObj c as calls \<Rightarrow> True | _ \<Rightarrow> False)"

text \<open>The blocks of \<open>unmarshal\<close> that run before the block of a given key.\<close>

definition slots_before :: "string \<Rightarrow> (string \<times> (pyval \<Rightarrow> pyval result)) list" where
  "slots_before key = takeWhile (\<lambda>kd. fst kd \<noteq> key) slot_table"

text \<open>What \<open>marshal\<close> writes under a key of a dict that \<open>unmarshal\<close> has filled.\<close>

definition encoded :: "(pyval \<Rightarrow> pyval) \<Rightarrow> (pyval \<Rightarrow> pyval) \<Rightarrow> pydict \<Rightarrow> string \<Rightarrow> pyval" where
  "encoded cf fm cfg key =
     (case map_of cfg key of
        Some (PList es) \<Rightarrow>
          if key \<in> set config_slots then PList (map cf es)
          else if key = ''field'' then PList (map fm es)
          else PList es
      | Some v \<Rightarrow> v
      | None \<Rightarrow> PNone)"

section \<open>Sequencing and loops\<close>

lemma bindE_Inl [simp]: "bindE (Inl e) f = Inl e"
  by (simp add: bindE_def)

lemma bindE_Inr [simp]: "bindE (Inr v) f = f v"
  by (simp add: bindE_def)

lemma bindE_eq_Inr: "bindE m f = Inr y \<longleftrightarrow> (\<exists>v. m = Inr v \<and> f v = Inr y)"
  by (cases m) simp_all

lemma bindE_eq_Inl: "bindE m f = Inl e \<longleftrightarrow> m = Inl e \<or> (\<exists>v. m = Inr v \<and> f v = Inl e)"
  by (cases m) simp_all

lemma mapE_eq_Inr: "mapE f xs = Inr ys \<longleftrightarrow> list_all2 (\<lambda>x y. f x = Inr y) xs ys"
proof (induction xs arbitrary: ys)
  case Nil
  show ?case by auto
next
  case (Cons x xs)
  show ?case
    by (cases ys) (auto simp: bindE_eq_Inr Cons.IH)
qed

lemma mapE_first_failure:
  assumes "\<forall>x\<in>set pre. \<exists>y. f x = Inr y" and "f r = Inl e"
  shows "mapE f (pre @ r # post) = Inl e"
  using assms
proof (induction pre)
  case Nil
  then show ?case by simp
next
  case (Cons x pre)
  then obtain y where "f x = Inr y" by auto
  with Cons show ?case by simp
qed

lemma mapE_some_failure:
  assumes "r \<in> set xs" and "f r = Inl e"
  shows "\<exists>e'. mapE f xs = Inl e'"
proof (cases "mapE f xs")
  case (Inl a)
  then show ?thesis by blast
next
  case (Inr ys)
  then have "list_all2 (\<lambda>x y. f x = Inr y) xs ys" by (simp add: mapE_eq_Inr)
  with assms(1) obtain y where "f r = Inr y"
    by (auto simp: list_all2_conv_all_nth in_set_conv_nth)
  with assms(2) show ?thesis by simp
qed

lemma unmarshal_slot_eq_Inr:
  "unmarshal_slot key dec cfg = Inr cfg' \<longleftrightarrow>
     (\<exists>es. slot_items cfg key dec = Inr es \<and> cfg' = AList.update key (PList es) cfg)"
  by (auto simp: unmarshal_slot_def bindE_eq_Inr)

lemma unmarshal_slot_eq_Inl:
  "unmarshal_slot key dec cfg = Inl e \<longleftrightarrow> slot_items cfg key dec = Inl e"
  by (auto simp: unmarshal_slot_def bindE_eq_Inl)

lemma slot_items_cong:
  "map_of cfg key = map_of cfg' key \<Longrightarrow> slot_items cfg key dec = slot_items cfg' key dec"
  by (simp add: slot_items_def)

lemma run_slots_ok:
  assumes "run_slots tbl cfg = (None, cfg')" and "distinct (map fst tbl)"
  shows "(\<forall>(k, d)\<in>set tbl. \<exists>es. slot_items cfg k d = Inr es \<and> map_of cfg' k = Some (PList es))
       \<and> (\<forall>k. k \<notin> fst ` set tbl \<longrightarrow> map_of cfg' k = map_of cfg k)"
  using assms
proof (induction tbl arbitrary: cfg)
  case Nil
  then show ?case by simp
next
  case (Cons kd tbl)
  obtain k d where kd: "kd = (k, d)" by (cases kd)
  from Cons.prems(1) kd obtain cfg1 where
    s: "unmarshal_slot k d cfg = Inr cfg1" and r: "run_slots tbl cfg1 = (None, cfg')"
    by (auto split: sum.splits)
  from s obtain es where es: "slot_items cfg k d = Inr es"
    and cfg1: "cfg1 = AList.update k (PList es) cfg"
    by (auto simp: unmarshal_slot_eq_Inr)
  from Cons.prems(2) kd have dist: "distinct (map fst tbl)" and knot: "k \<notin> fst ` set tbl"
    by auto
  note IH = Cons.IH [OF r dist]
  have m1: "map_of cfg1 k' = (if k' = k then Some (PList es) else map_of cfg k')" for k'
    by (simp add: cfg1 update_conv')
  have a: "\<exists>es'. slot_items cfg k' d' = Inr es' \<and> map_of cfg' k' = Some (PList es')"
    if "(k', d') \<in> set (kd # tbl)" for k' d'
  proof (cases "(k', d') = kd")
    case True
    with kd have "k' = k" "d' = d" by auto
    moreover from IH knot have "map_of cfg' k = map_of cfg1 k" by blast
    ultimately show ?thesis using es m1 by simp
  next
    case False
    with that have mem: "(k', d') \<in> set tbl" by simp
    then have "k' \<noteq> k" using knot by force
    then have "slot_items cfg1 k' d' = slot_items cfg k' d'"
      by (intro slot_items_cong) (simp add: m1)
    with IH mem show ?thesis by fastforce
  qed
  have b: "map_of cfg' k' = map_of cfg k'" if "k' \<notin> fst ` set (kd # tbl)" for k'
  proof -
    from that kd have "k' \<noteq> k" "k' \<notin> fst ` set tbl" by auto
    with IH m1 show ?thesis by simp
  qed
  from a b show ?case by blast
qed

lemma run_slots_failure:
  assumes "run_slots tbl cfg = (Some e, cfg')"
  shows "\<exists>done k d rest. tbl = done @ (k, d) # rest \<and> run_slots done cfg = (None, cfg')
           \<and> unmarshal_slot k d cfg' = Inl e"
  using assms
proof (induction tbl arbitrary: cfg)
  case Nil
  then show ?case by simp
next
  case (Cons kd tbl)
  obtain k d where kd: "kd = (k, d)" by (cases kd)
  show ?case
  proof (cases "unmarshal_slot k d cfg")
    case (Inl e')
    with Cons.prems kd have "e' = e" "cfg' = cfg" by auto
    with Inl kd have "kd # tbl = [] @ (k, d) # tbl \<and> run_slots [] cfg = (None, cfg')
        \<and> unmarshal_slot k d cfg' = Inl e" by simp
    then show ?thesis by blast
  next
    case (Inr cfg1)
    with Cons.prems kd have "run_slots tbl cfg1 = (Some e, cfg')" by simp
    from Cons.IH [OF this] obtain dn k2 d2 rest where
      t: "tbl = dn @ (k2, d2) # rest" and r: "run_slots dn cfg1 = (None, cfg')"
      and u: "unmarshal_slot k2 d2 cfg' = Inl e" by blast
    from t kd have "kd # tbl = ((k, d) # dn) @ (k2, d2) # rest" by simp
    moreover from r Inr have "run_slots ((k, d) # dn) cfg = (None, cfg')" by simp
    ultimately show ?thesis using u by blast
  qed
qed

lemma run_slots_append:
  "run_slots (xs @ ys) cfg =
     (case run_slots xs cfg of (None, cfg1) \<Rightarrow> run_slots ys cfg1 | (Some e, cfg1) \<Rightarrow> (Some e, cfg1))"
  by (induction xs arbitrary: cfg) (auto split: sum.splits)

lemma distinct_slot_table: "distinct (map fst slot_table)"
  by (simp add: slot_table_def)

section \<open>What the decoders return\<close>

lemma new_eq_Inr: "new c as = Inr e \<longleftrightarrow> (\<exists>vs. args as = Inr vs \<and> e = PObj c vs [])"
  by (auto simp: new_def bindE_eq_Inr)

lemma new_is_obj: "new c as = Inr e \<Longrightarrow> is_obj e"
  by (auto simp: new_eq_Inr is_obj_def)

lemma ifE_eq_Inr: "ifE c t e = Inr v \<Longrightarrow> t = Inr v \<or> e = Inr v"
  by (auto simp: ifE_def bindE_eq_Inr split: if_splits)

lemma record_call_eq_Inr:
  "record_call k v x = Inr y \<longleftrightarrow> (\<exists>c as calls. x = PObj c as calls \<and> y = PObj c as (calls @ [(k, v)]))"
  by (cases x) auto

lemma decode_merge_blackout_is_obj: "decode_merge_blackout r = Inr e \<Longrightarrow> is_obj e"
  unfolding decode_merge_blackout_def
  by (auto dest!: ifE_eq_Inr dest: new_is_obj)

lemma decode_backup_is_obj: "decode_backup r = Inr e \<Longrightarrow> is_obj e"
  unfolding decode_backup_def
  by (auto simp: bindE_eq_Inr record_call_eq_Inr is_obj_def)

lemma decode_field_class:
  assumes "decode_field r = Inr e"
  shows "\<exists>c as. e = PObj c as [(''unmarshal'', r)] \<and> c \<in> {PathField, WordQuery, RootField}"
  using assms unfolding decode_field_def
  by (auto simp: bindE_eq_Inr record_call_eq_Inr new_eq_Inr dest!: ifE_eq_Inr)

lemma decode_field_is_Field: "decode_field r = Inr e \<Longrightarrow> is_Field e"
  by (drule decode_field_class) (auto simp: is_Field_def)

lemma is_Field_is_obj: "is_Field x \<Longrightarrow> is_obj x"
  by (cases x) (simp_all add: is_Field_def is_obj_def)

lemma slot_table_is_obj:
  assumes "(k, d) \<in> set slot_table" and "d r = Inr e"
  shows "is_obj e"
proof -
  have "\<forall>kd\<in>set slot_table. \<forall>r e. snd kd r = Inr e \<longrightarrow> is_obj e"
    unfolding slot_table_def
    by (auto simp: decode_element_range_index_def decode_field_range_index_def
      decode_attribute_range_index_def decode_path_range_index_def
      decode_geospatial_element_index_def decode_geospatial_path_index_def
      decode_geospatial_element_child_index_def decode_geospatial_element_pair_index_def
      decode_geospatial_element_attribute_pair_index_def decode_fragment_root_def
      decode_fragment_parent_def decode_path_namespace_def decode_element_word_lexicon_def
      decode_attribute_word_lexicon_def decode_element_word_query_through_def
      decode_phrase_through_def decode_phrase_around_def decode_ruleset_def
      intro: new_is_obj decode_merge_blackout_is_obj decode_backup_is_obj
        is_Field_is_obj [OF decode_field_is_Field])
  with assms show ?thesis by fastforce
qed

section \<open>Facts about a whole \<open>unmarshal\<close>\<close>

lemma unmarshal_eq_Inr:
  assumes "fst (unmarshal cfg) = Inr db"
  shows "run_slots slot_table cfg = (None, config db)"
    and "snd (unmarshal cfg) = config db"
    and "map_of cfg ''database-name'' = Some (name db)"
  using assms
  by (auto simp: unmarshal_def getitem_def Let_def split: option.splits prod.splits)

lemma unmarshal_slot_value:
  assumes "fst (unmarshal cfg) = Inr db" and "(k, d) \<in> set slot_table"
  shows "\<exists>es. slot_items cfg k d = Inr es \<and> map_of (config db) k = Some (PList es)"
  using run_slots_ok [OF unmarshal_eq_Inr(1) [OF assms(1)] distinct_slot_table] assms(2)
  by blast

lemma unmarshal_other_keys:
  assumes "fst (unmarshal cfg) = Inr db" and "k \<notin> fst ` set slot_table"
  shows "map_of (config db) k = map_of cfg k"
  using run_slots_ok [OF unmarshal_eq_Inr(1) [OF assms(1)] distinct_slot_table] assms(2)
  by blast

lemma slot_items_absent: "map_of cfg k = None \<Longrightarrow> slot_items cfg k d = Inr []"
  by (simp add: slot_items_def)

lemma slot_items_list: "map_of cfg k = Some (PList rs) \<Longrightarrow> slot_items cfg k d = mapE d rs"
  by (simp add: slot_items_def iter_def)

lemma unmarshal_list_slot:
  assumes "fst (unmarshal cfg) = Inr db" and "(k, d) \<in> set slot_table"
    and "map_of cfg k = Some (PList rs)"
  shows "\<exists>es. map_of (config db) k = Some (PList es) \<and> length es = length rs
           \<and> (\<forall>i<length rs. d (rs ! i) = Inr (es ! i))"
proof -
  from unmarshal_slot_value [OF assms(1,2)] obtain es where
    "slot_items cfg k d = Inr es" and v: "map_of (config db) k = Some (PList es)" by blast
  with assms(3) have "mapE d rs = Inr es" by (simp add: slot_items_list)
  then have "length es = length rs" "\<forall>i<length rs. d (rs ! i) = Inr (es ! i)"
    by (auto simp: mapE_eq_Inr list_all2_conv_all_nth)
  with v show ?thesis by blast
qed

lemma slot_items_is_obj:
  assumes "(k, d) \<in> set slot_table" and "slot_items cfg k d = Inr es" and "e \<in> set es"
  shows "is_obj e"
proof (cases "map_of cfg k")
  case None
  with assms(2,3) show ?thesis by (simp add: slot_items_def)
next
  case (Some v)
  with assms(2) obtain items where "mapE d items = Inr es"
    by (auto simp: slot_items_def bindE_eq_Inr)
  then have "list_all2 (\<lambda>x y. d x = Inr y) items es" by (simp add: mapE_eq_Inr)
  with assms(3) obtain x where "d x = Inr e"
    by (auto simp: list_all2_conv_all_nth in_set_conv_nth)
  with assms(1) show ?thesis by (rule slot_table_is_obj)
qed

lemma map_fst_slot_table:
  "map fst slot_table =
     [''range-element-index'', ''range-field-index'', ''range-element-attribute-index'',
      ''range-path-index'', ''geospatial-element-index'', ''geospatial-path-index'',
      ''geospatial-element-child-index'', ''geospatial-element-pair-index'',
      ''geospatial-element-attribute-pair-index'', ''fragment-root'', ''fragment-parent'',
      ''merge-blackout'', ''database-backup'', ''path-namespace'', ''element-word-lexicon'',
      ''element-attribute-word-lexicon'', ''element-word-query-through'', ''phrase-through'',
      ''phrase-around'', ''default-ruleset'', ''field'']"
  by (simp add: slot_table_def)

lemma slot_table_keys:
  "fst ` set slot_table = set config_slots \<union> {''field''}"
proof -
  have "fst ` set slot_table = set (map fst slot_table)" by simp
  also have "\<dots> = set config_slots \<union> {''field''}"
    unfolding map_fst_slot_table config_slots_def by auto
  finally show ?thesis .
qed

lemma slot_table_mem:
  "(''merge-blackout'', decode_merge_blackout) \<in> set slot_table"
  "(''database-backup'', decode_backup) \<in> set slot_table"
  "(''field'', decode_field) \<in> set slot_table"
  "(''range-element-index'', decode_element_range_index) \<in> set slot_table"
  by (simp_all add: slot_table_def)

section \<open>Merge blackouts\<close>

lemma getitem_dict_eq_Inr [simp]: "getitem (PDict r) k = Inr v \<longleftrightarrow> map_of r k = Some v"
  by (simp add: getitem_def split: option.splits)

lemma decode_recurring_all_day:
  assumes "map_of r ''blackout-type'' = Some (PStr ''recurring'')"
    and "map_of r ''period'' = Some PNone"
  shows "decode_merge_blackout (PDict r) =
           new MergeBlackout_recurringAllDay
             [getitem (PDict r) ''merge-priority'', getitem (PDict r) ''limit'',
              getitem (PDict r) ''day'']"
  using assms
  by (simp add: decode_merge_blackout_def ifE_def andE_def eqE_def is_noneE_def getitem_def)

lemma decode_recurring_duration:
  assumes "map_of r ''blackout-type'' = Some (PStr ''recurring'')"
    and "map_of r ''period'' = Some (PDict p)" and "''duration'' \<in> fst ` set p"
  shows "decode_merge_blackout (PDict r) =
           new MergeBlackout_recurringDuration
             [getitem (PDict r) ''merge-priority'', getitem (PDict r) ''limit'',
              getitem (PDict r) ''day'', getitem (PDict p) ''start-time'',
              getitem (PDict p) ''duration'']"
  using assms
  by (simp add: decode_merge_blackout_def ifE_def andE_def eqE_def is_noneE_def inE_def
      contains_def getitem_def getitem2_def)

lemma decode_recurring_start_end:
  assumes "map_of r ''blackout-type'' = Some (PStr ''recurring'')"
    and "map_of r ''period'' = Some (PDict p)" and "''duration'' \<notin> fst ` set p"
    and "''end-time'' \<in> fst ` set p"
  shows "decode_merge_blackout (PDict r) =
           new MergeBlackout_recurringStartEnd
             [getitem (PDict r) ''merge-priority'', getitem (PDict r) ''limit'',
              getitem (PDict r) ''day'', getitem (PDict p) ''start-time'',
              getitem (PDict p) ''end-time'']"
  using assms
  by (simp add: decode_merge_blackout_def ifE_def andE_def eqE_def is_noneE_def inE_def
      contains_def getitem_def getitem2_def)

text \<open>
  Claim C1. Let \<open>unmarshal\<close> succeed on a document whose \<open>'merge-blackout'\<close> slot is
  a list, and let the \<open>i\<close>-th record have \<open>blackout-type\<close> \<open>'recurring'\<close>. If its
  \<open>period\<close> is \<open>null\<close>, the \<open>i\<close>-th decoded entity is the recurring all-day
  blackout built from \<open>merge-priority\<close>, \<open>limit\<close> and \<open>day\<close>. If its \<open>period\<close> is
  a record with the key \<open>duration\<close> (whatever else it holds, \<open>end-time\<close>
  included), the entity is the recurring-duration blackout built from those
  three and the period's \<open>start-time\<close> and \<open>duration\<close>: the null test comes
  first, then \<open>duration\<close>, and \<open>end-time\<close> is looked at only after both.
\<close>

theorem recurring_blackout_priority:
  assumes "fst (unmarshal cfg) = Inr db"
    and "map_of cfg ''merge-blackout'' = Some (PList rs)"
    and "i < length rs" and "rs ! i = PDict r"
    and "map_of r ''blackout-type'' = Some (PStr ''recurring'')"
  shows "\<exists>es. map_of (config db) ''merge-blackout'' = Some (PList es) \<and> length es = length rs
      \<and> (map_of r ''period'' = Some PNone \<longrightarrow>
           (\<exists>mp lim day. map_of r ''merge-priority'' = Some mp \<and> map_of r ''limit'' = Some lim
              \<and> map_of r ''day'' = Some day
              \<and> es ! i = PObj MergeBlackout_recurringAllDay [mp, lim, day] []))
      \<and> (\<forall>p. map_of r ''period'' = Some (PDict p) \<and> ''duration'' \<in> fst ` set p \<longrightarrow>
           (\<exists>mp lim day st du. map_of r ''merge-priority'' = Some mp
              \<and> map_of r ''limit'' = Some lim \<and> map_of r ''day'' = Some day
              \<and> map_of p ''start-time'' = Some st \<and> map_of p ''duration'' = Some du
              \<and> es ! i = PObj MergeBlackout_recurringDuration [mp, lim, day, st, du] []))"
proof -
  from unmarshal_list_slot [OF assms(1) slot_table_mem(1) assms(2)] obtain es where
    v: "map_of (config db) ''merge-blackout'' = Some (PList es)" and l: "length es = length rs"
    and d: "\<forall>i<length rs. decode_merge_blackout (rs ! i) = Inr (es ! i)" by blast
  from d assms(3,4) have dec: "decode_merge_blackout (PDict r) = Inr (es ! i)" by auto
  have a: "\<exists>mp lim day. map_of r ''merge-priority'' = Some mp \<and> map_of r ''limit'' = Some lim
              \<and> map_of r ''day'' = Some day
              \<and> es ! i = PObj MergeBlackout_recurringAllDay [mp, lim, day] []"
    if "map_of r ''period'' = Some PNone"
    using dec unfolding decode_recurring_all_day [OF assms(5) that]
    by (auto simp: new_eq_Inr bindE_eq_Inr)
  have b: "\<exists>mp lim day st du. map_of r ''merge-priority'' = Some mp
              \<and> map_of r ''limit'' = Some lim \<and> map_of r ''day'' = Some day
              \<and> map_of p ''start-time'' = Some st \<and> map_of p ''duration'' = Some du
              \<and> es ! i = PObj MergeBlackout_recurringDuration [mp, lim, day, st, du] []"
    if "map_of r ''period'' = Some (PDict p)" and "''duration'' \<in> fst ` set p" for p
    using dec unfolding decode_recurring_duration [OF assms(5) that]
    by (auto simp: new_eq_Inr bindE_eq_Inr)
  from v l a b show ?thesis by blast
qed

theorem recurring_blackout_priority_witness:
  "\<exists>db es. fst (unmarshal blackout_doc) = Inr db
     \<and> map_of (config db) ''merge-blackout'' = Some (PList es)
     \<and> length es = 3
     \<and> es ! 0 = PObj MergeBlackout_recurringAllDay
                  [PStr ''lower'', PNum 4, PList [PStr ''monday'']] []
     \<and> es ! 1 = PObj MergeBlackout_recurringDuration
                  [PStr ''lower'', PNum 4, PList [PStr ''monday''], PStr ''08:00:00'', PStr ''P1H''] []
     \<and> es ! 2 = PObj MergeBlackout_recurringDuration
                  [PStr ''lower'', PNum 4, PList [PStr ''monday''], PStr ''08:00:00'', PStr ''P1H''] []"
proof -
  have "\<not> isl (fst (unmarshal blackout_doc))" by code_simp
  then obtain db where db: "fst (unmarshal blackout_doc) = Inr db"
    by (cases "fst (unmarshal blackout_doc)") auto
  let ?rs = "[PDict all_day_record, PDict duration_record, PDict both_record]"
  have m: "map_of blackout_doc ''merge-blackout'' = Some (PList ?rs)"
    by (simp add: blackout_doc_def)
  have t0: "map_of all_day_record ''blackout-type'' = Some (PStr ''recurring'')"
    and p0: "map_of all_day_record ''period'' = Some PNone"
    by (simp_all add: all_day_record_def)
  have t1: "map_of duration_record ''blackout-type'' = Some (PStr ''recurring'')"
    and p1: "map_of duration_record ''period'' = Some (PDict duration_period)"
    and d1: "''duration'' \<in> fst ` set duration_period"
    by (simp_all add: duration_record_def duration_period_def)
  have t2: "map_of both_record ''blackout-type'' = Some (PStr ''recurring'')"
    and p2: "map_of both_record ''period'' = Some (PDict both_period)"
    and d2: "''duration'' \<in> fst ` set both_period" and "''end-time'' \<in> fst ` set both_period"
    by (simp_all add: both_record_def both_period_def)
  from recurring_blackout_priority [OF db m, of 0 all_day_record, OF _ _ t0] p0
  obtain es where es: "map_of (config db) ''merge-blackout'' = Some (PList es)"
    and l: "length es = 3"
    and e0: "es ! 0 = PObj MergeBlackout_recurringAllDay
                  [PStr ''lower'', PNum 4, PList [PStr ''monday'']] []"
    by (auto simp: all_day_record_def)
  from recurring_blackout_priority [OF db m, of 1 duration_record, OF _ _ t1] p1 d1 es
  have e1: "es ! 1 = PObj MergeBlackout_recurringDuration
                  [PStr ''lower'', PNum 4, PList [PStr ''monday''], PStr ''08:00:00'', PStr ''P1H''] []"
    by (auto simp: duration_record_def duration_period_def)
  from recurring_blackout_priority [OF db m, of 2 both_record, OF _ _ t2] p2 d2 es
  have e2: "es ! 2 = PObj MergeBlackout_recurringDuration
                  [PStr ''lower'', PNum 4, PList [PStr ''monday''], PStr ''08:00:00'', PStr ''P1H''] []"
    by (auto simp: both_record_def both_period_def)
  from db es l e0 e1 e2 show ?thesis by blast
qed

section \<open>Records that do not decode\<close>

lemma unmarshal_fails_on_bad_record:
  assumes "(k, d) \<in> set slot_table" and "map_of cfg k = Some (PList rs)"
    and "r \<in> set rs" and "d r = Inl e"
  shows "\<exists>e'. fst (unmarshal cfg) = Inl e'"
proof (cases "fst (unmarshal cfg)")
  case (Inl e')
  then show ?thesis by blast
next
  case (Inr db)
  from unmarshal_list_slot [OF Inr assms(1,2)] obtain es where
    "\<forall>i<length rs. d (rs ! i) = Inr (es ! i)" by blast
  with assms(3) obtain y where "d r = Inr y" by (auto simp: in_set_conv_nth)
  with assms(4) show ?thesis by simp
qed

lemma slot_table_split:
  assumes "(k, d) \<in> set slot_table"
  shows "\<exists>rest. slot_table = slots_before k @ (k, d) # rest"
proof -
  let ?P = "\<lambda>kd. fst kd \<noteq> k"
  from assms have ex: "\<exists>x\<in>set slot_table. \<not> ?P x" by force
  then have ne: "dropWhile ?P slot_table \<noteq> []" by (simp add: dropWhile_eq_Nil_conv)
  then obtain x rest where dw: "dropWhile ?P slot_table = x # rest"
    by (cases "dropWhile ?P slot_table") auto
  have "\<not> ?P (hd (dropWhile ?P slot_table))" using ne by (rule hd_dropWhile)
  with dw have fx: "fst x = k" by simp
  have "x \<in> set (dropWhile ?P slot_table)" by (simp add: dw)
  then have "x \<in> set slot_table" by (rule set_dropWhileD)
  with fx have "(k, snd x) \<in> set slot_table" by (metis prod.collapse)
  with assms have "snd x = d"
    using eq_key_imp_eq_value [OF distinct_slot_table] by metis
  with fx have "x = (k, d)" by (metis prod.collapse)
  with dw have "slot_table = slots_before k @ (k, d) # rest"
    unfolding slots_before_def by (metis takeWhile_dropWhile_id)
  then show ?thesis by blast
qed

lemma slots_before_keys: "k \<notin> fst ` set (slots_before k)"
  unfolding slots_before_def by (auto dest: set_takeWhileD)

lemma distinct_slots_before: "distinct (map fst (slots_before k))"
proof -
  have "map fst (slots_before k) = takeWhile (\<lambda>x. x \<noteq> k) (map fst slot_table)"
    unfolding slots_before_def by (simp add: takeWhile_map comp_def)
  then show ?thesis using distinct_slot_table by (simp add: distinct_takeWhile)
qed

lemma unmarshal_first_failure:
  assumes tbl: "(k, d) \<in> set slot_table"
    and slot: "map_of cfg k = Some (PList (pre @ r # post))"
    and nm: "map_of cfg ''database-name'' \<noteq> None"
    and before: "fst (run_slots (slots_before k) cfg) = None"
    and pre: "\<forall>x\<in>set pre. \<exists>y. d x = Inr y"
    and bad: "d r = Inl e"
  shows "fst (unmarshal cfg) = Inl e"
proof -
  from slot_table_split [OF tbl] obtain rest where
    split: "slot_table = slots_before k @ (k, d) # rest" by blast
  from before obtain cfg1 where r1: "run_slots (slots_before k) cfg = (None, cfg1)"
    by (cases "run_slots (slots_before k) cfg") auto
  from run_slots_ok [OF r1 distinct_slots_before] slots_before_keys
  have "map_of cfg1 k = map_of cfg k" by blast
  with slot have "slot_items cfg1 k d = mapE d (pre @ r # post)"
    by (simp add: slot_items_list)
  also have "\<dots> = Inl e" using pre bad by (rule mapE_first_failure)
  finally have "unmarshal_slot k d cfg1 = Inl e" by (simp add: unmarshal_slot_eq_Inl)
  then have "run_slots ((k, d) # rest) cfg1 = (Some e, cfg1)" by simp
  with r1 have "run_slots slot_table cfg = (Some e, cfg1)"
    by (subst split) (simp add: run_slots_append)
  with nm show ?thesis
    by (auto simp: unmarshal_def getitem_def Let_def)
qed

lemma decode_merge_blackout_unknown_tag:
  assumes "map_of r ''blackout-type'' = Some t" and "t \<noteq> PStr ''recurring''" and "t \<noteq> PStr ''once''"
  shows "decode_merge_blackout (PDict r) =
           Inl (UnexpectedManagementAPIResponse ''Unparseable merge blackout period'')"
  using assms
  by (simp add: decode_merge_blackout_def ifE_def andE_def eqE_def getitem_def)

lemma decode_merge_blackout_unknown_period:
  assumes "map_of r ''blackout-type'' = Some t" and "map_of r ''period'' = Some (PDict p)"
    and "''duration'' \<notin> fst ` set p" and "''end-time'' \<notin> fst ` set p"
  shows "decode_merge_blackout (PDict r) =
           Inl (UnexpectedManagementAPIResponse ''Unparseable merge blackout period'')"
  using assms
  by (simp add: decode_merge_blackout_def ifE_def andE_def eqE_def is_noneE_def inE_def
      contains_def getitem_def)

lemma incremental_dict: "\<exists>v. incremental (PDict r) = Inr v"
  by (auto simp: incremental_def ifE_def contains_def getitem_def map_of_eq_None_iff
      split: option.splits)

lemma decode_backup_unknown_tag:
  assumes "map_of r ''backup-type'' = Some t"
    and "t \<notin> PStr ` {''minutely'', ''hourly'', ''daily'', ''weekly'', ''monthly'', ''once''}"
  shows "decode_backup (PDict r) = Inl (UnexpectedManagementAPIResponse ''Unparseable backup'')"
proof -
  obtain v where "incremental (PDict r) = Inr v" using incremental_dict by blast
  with assms show ?thesis
    by (simp add: decode_backup_def ifE_def eqE_def getitem_def)
qed

text \<open>
  What does hold of a record that does not decode. Let the \<open>'merge-blackout'\<close>
  or the \<open>'database-backup'\<close> slot of a document be a list holding the record
  \<open>r\<close>. If \<open>r\<close> does not decode, \<open>unmarshal\<close> raises: it never returns a
  document. The exception is the one \<open>r\<close> raises when the document has a
  \<open>'database-name'\<close>, the blocks before this slot run through, and the records
  before \<open>r\<close> decode. A merge blackout raises \<open>UnexpectedManagementAPIResponse\<close>
  when its tag is neither \<open>'recurring'\<close> nor \<open>'once'\<close>, or when its period is a
  record with neither \<open>duration\<close> nor \<open>end-time\<close>; a backup raises it when its
  \<open>backup-type\<close> is none of the six known ones.
\<close>

lemma unrecognized_variant_fails:
  assumes "(slot, dec) = (''merge-blackout'', decode_merge_blackout)
         \<or> (slot, dec) = (''database-backup'', decode_backup)"
    and "map_of cfg slot = Some (PList (pre @ PDict r # post))"
  shows "(\<forall>e. dec (PDict r) = Inl e \<longrightarrow> (\<exists>e'. fst (unmarshal cfg) = Inl e'))
     \<and> (\<forall>e. dec (PDict r) = Inl e \<and> map_of cfg ''database-name'' \<noteq> None
            \<and> fst (run_slots (slots_before slot) cfg) = None
            \<and> (\<forall>x\<in>set pre. \<exists>y. dec x = Inr y)
          \<longrightarrow> fst (unmarshal cfg) = Inl e)
     \<and> (\<forall>t. map_of r ''blackout-type'' = Some t
            \<and> (t \<noteq> PStr ''recurring'' \<and> t \<noteq> PStr ''once''
               \<or> (\<exists>p. map_of r ''period'' = Some (PDict p)
                     \<and> ''duration'' \<notin> fst ` set p \<and> ''end-time'' \<notin> fst ` set p))
          \<longrightarrow> decode_merge_blackout (PDict r) =
                Inl (UnexpectedManagementAPIResponse ''Unparseable merge blackout period''))
     \<and> (\<forall>t. map_of r ''backup-type'' = Some t
            \<and> t \<notin> PStr ` {''minutely'', ''hourly'', ''daily'', ''weekly'', ''monthly'', ''once''}
          \<longrightarrow> decode_backup (PDict r) =
                Inl (UnexpectedManagementAPIResponse ''Unparseable backup''))"
proof -
  from assms(1) have tbl: "(slot, dec) \<in> set slot_table"
    using slot_table_mem(1,2) by auto
  have mem: "PDict r \<in> set (pre @ PDict r # post)" by simp
  have a: "\<exists>e'. fst (unmarshal cfg) = Inl e'" if "dec (PDict r) = Inl e" for e
    using unmarshal_fails_on_bad_record [OF tbl assms(2) mem that] .
  have b: "fst (unmarshal cfg) = Inl e"
    if "dec (PDict r) = Inl e" "map_of cfg ''database-name'' \<noteq> None"
      "fst (run_slots (slots_before slot) cfg) = None" "\<forall>x\<in>set pre. \<exists>y. dec x = Inr y" for e
    using unmarshal_first_failure [OF tbl assms(2) that(2,3,4,1)] .
  have c: "decode_merge_blackout (PDict r) =
                Inl (UnexpectedManagementAPIResponse ''Unparseable merge blackout period'')"
    if "map_of r ''blackout-type'' = Some t"
      "t \<noteq> PStr ''recurring'' \<and> t \<noteq> PStr ''once''
               \<or> (\<exists>p. map_of r ''period'' = Some (PDict p)
                     \<and> ''duration'' \<notin> fst ` set p \<and> ''end-time'' \<notin> fst ` set p)" for t
    using that decode_merge_blackout_unknown_tag decode_merge_blackout_unknown_period by blast
  have d: "decode_backup (PDict r) = Inl (UnexpectedManagementAPIResponse ''Unparseable backup'')"
    if "map_of r ''backup-type'' = Some t"
      "t \<notin> PStr ` {''minutely'', ''hourly'', ''daily'', ''weekly'', ''monthly'', ''once''}" for t
    using that by (rule decode_backup_unknown_tag)
  show ?thesis
  proof (intro conjI allI impI)
    fix e assume "dec (PDict r) = Inl e"
    then show "\<exists>e'. fst (unmarshal cfg) = Inl e'" by (rule a)
  next
    fix e
    assume h: "dec (PDict r) = Inl e \<and> map_of cfg ''database-name'' \<noteq> None
            \<and> fst (run_slots (slots_before slot) cfg) = None
            \<and> (\<forall>x\<in>set pre. \<exists>y. dec x = Inr y)"
    show "fst (unmarshal cfg) = Inl e"
      by (rule b) (use h in simp_all)
  next
    fix t
    assume h: "map_of r ''blackout-type'' = Some t
            \<and> (t \<noteq> PStr ''recurring'' \<and> t \<noteq> PStr ''once''
               \<or> (\<exists>p. map_of r ''period'' = Some (PDict p)
                     \<and> ''duration'' \<notin> fst ` set p \<and> ''end-time'' \<notin> fst ` set p))"
    from h have h1: "map_of r ''blackout-type'' = Some t" by (rule conjunct1)
    from h have h2: "t \<noteq> PStr ''recurring'' \<and> t \<noteq> PStr ''once''
               \<or> (\<exists>p. map_of r ''period'' = Some (PDict p)
                     \<and> ''duration'' \<notin> fst ` set p \<and> ''end-time'' \<notin> fst ` set p)"
      by (rule conjunct2)
    show "decode_merge_blackout (PDict r) =
                Inl (UnexpectedManagementAPIResponse ''Unparseable merge blackout period'')"
      using h1 h2 by (rule c)
  next
    fix t
    assume h: "map_of r ''backup-type'' = Some t
            \<and> t \<notin> PStr ` {''minutely'', ''hourly'', ''daily'', ''weekly'', ''monthly'', ''once''}"
    from h have h1: "map_of r ''backup-type'' = Some t" by (rule conjunct1)
    from h have h2: "t \<notin> PStr ` {''minutely'', ''hourly'', ''daily'', ''weekly'', ''monthly'', ''once''}"
      by (rule conjunct2)
    show "decode_backup (PDict r) = Inl (UnexpectedManagementAPIResponse ''Unparseable backup'')"
      using h1 h2 by (rule d)
  qed
qed

lemma unrecognized_variant_fails_example:
  "fst (unmarshal bogus_doc) =
       Inl (UnexpectedManagementAPIResponse ''Unparseable merge blackout period'')
     \<and> fst (unmarshal yearly_doc) = Inl (UnexpectedManagementAPIResponse ''Unparseable backup'')"
proof -
  have slot1: "map_of bogus_doc ''merge-blackout'' =
      Some (PList ([PDict all_day_record] @ PDict bogus_record # []))"
    by (simp add: bogus_doc_def)
  have which1: "(''merge-blackout'', decode_merge_blackout) = (''merge-blackout'', decode_merge_blackout)
         \<or> (''merge-blackout'', decode_merge_blackout) = (''database-backup'', decode_backup)"
    by simp
  note th1 = unrecognized_variant_fails [OF which1 slot1]
  have tag1: "map_of bogus_record ''blackout-type'' = Some (PStr ''bogus'')
      \<and> (PStr ''bogus'' \<noteq> PStr ''recurring'' \<and> PStr ''bogus'' \<noteq> PStr ''once''
          \<or> (\<exists>p. map_of bogus_record ''period'' = Some (PDict p)
                \<and> ''duration'' \<notin> fst ` set p \<and> ''end-time'' \<notin> fst ` set p))"
    by (simp add: bogus_record_def)
  from th1 [THEN conjunct2, THEN conjunct2, THEN conjunct1, rule_format, OF tag1]
  have dec1: "decode_merge_blackout (PDict bogus_record) =
      Inl (UnexpectedManagementAPIResponse ''Unparseable merge blackout period'')" .
  have nm1: "map_of bogus_doc ''database-name'' \<noteq> None" by (simp add: bogus_doc_def)
  have before1: "fst (run_slots (slots_before ''merge-blackout'') bogus_doc) = None"
    by code_simp
  have "\<not> isl (decode_merge_blackout (PDict all_day_record))" by code_simp
  then have pre1: "\<forall>x\<in>set [PDict all_day_record]. \<exists>y. decode_merge_blackout x = Inr y"
    by (cases "decode_merge_blackout (PDict all_day_record)") auto
  from th1 [THEN conjunct2, THEN conjunct1, rule_format] dec1 nm1 before1 pre1
  have r1: "fst (unmarshal bogus_doc) =
      Inl (UnexpectedManagementAPIResponse ''Unparseable merge blackout period'')" by blast
  have slot2: "map_of yearly_doc ''database-backup'' = Some (PList ([] @ PDict yearly_record # []))"
    by (simp add: yearly_doc_def)
  have which2: "(''database-backup'', decode_backup) = (''merge-blackout'', decode_merge_blackout)
         \<or> (''database-backup'', decode_backup) = (''database-backup'', decode_backup)"
    by simp
  note th2 = unrecognized_variant_fails [OF which2 slot2]
  have tag2: "map_of yearly_record ''backup-type'' = Some (PStr ''yearly'')
      \<and> PStr ''yearly'' \<notin> PStr ` {''minutely'', ''hourly'', ''daily'', ''weekly'', ''monthly'', ''once''}"
    by (simp add: yearly_record_def)
  from th2 [THEN conjunct2, THEN conjunct2, THEN conjunct2, rule_format, OF tag2]
  have dec2: "decode_backup (PDict yearly_record) =
      Inl (UnexpectedManagementAPIResponse ''Unparseable backup'')" .
  have nm2: "map_of yearly_doc ''database-name'' \<noteq> None" by (simp add: yearly_doc_def)
  have before2: "fst (run_slots (slots_before ''database-backup'') yearly_doc) = None"
    by code_simp
  have pre2: "\<forall>x\<in>set []. \<exists>y. decode_backup x = Inr y" by simp
  from th2 [THEN conjunct2, THEN conjunct1, rule_format] dec2 nm2 before2 pre2
  have r2: "fst (unmarshal yearly_doc) = Inl (UnexpectedManagementAPIResponse ''Unparseable backup'')"
    by blast
  from r1 r2 show ?thesis by (rule conjI)
qed

text \<open>
  Claim C2 fails on the code. A one-time blackout whose period is \<open>null\<close>
  matches no rule, yet it does not reach the final \<open>else\<close> that raises
  \<open>UnexpectedManagementAPIResponse\<close>: the fourth test evaluates
  \<open>'end-time' in None\<close>, which raises \<open>TypeError\<close>, and \<open>unmarshal\<close> fails with
  that. The sibling inputs do reach the \<open>else\<close>: an unknown tag with a \<open>null\<close>
  period, and a one-time blackout whose period is a record with neither key.
\<close>

theorem once_null_period_type_error:
  "decode_merge_blackout (PDict once_null_record) = Inl TypeError
     \<and> fst (unmarshal once_null_doc) = Inl TypeError
     \<and> decode_merge_blackout (PDict unknown_null_record) =
         Inl (UnexpectedManagementAPIResponse ''Unparseable merge blackout period'')
     \<and> decode_merge_blackout (PDict once_empty_record) =
         Inl (UnexpectedManagementAPIResponse ''Unparseable merge blackout period'')"
  by code_simp

section \<open>The caller's dict after a failed \<open>unmarshal\<close>\<close>

lemma unmarshal_eq_Inl:
  assumes "unmarshal cfg = (Inl e, cfg')"
  shows "(e = KeyError ''database-name'' \<and> map_of cfg ''database-name'' = None \<and> cfg' = cfg)
       \<or> run_slots slot_table cfg = (Some e, cfg')"
  using assms
  by (auto simp: unmarshal_def getitem_def Let_def split: option.splits prod.splits)

lemma mapE_eq_Inl:
  assumes "mapE f xs = Inl e"
  shows "\<exists>pre r post. xs = pre @ r # post \<and> (\<forall>x\<in>set pre. \<exists>y. f x = Inr y) \<and> f r = Inl e"
  using assms
proof (induction xs)
  case Nil
  then show ?case by simp
next
  case (Cons x xs)
  show ?case
  proof (cases "f x")
    case (Inl e')
    with Cons.prems have "e' = e" by simp
    with Inl have "x # xs = [] @ x # xs \<and> (\<forall>x\<in>set []. \<exists>y. f x = Inr y) \<and> f x = Inl e" by simp
    then show ?thesis by blast
  next
    case (Inr y)
    with Cons.prems have "mapE f xs = Inl e" by (auto simp: bindE_eq_Inl)
    from Cons.IH [OF this] obtain pre r post where
      "xs = pre @ r # post" "\<forall>x\<in>set pre. \<exists>y. f x = Inr y" "f r = Inl e" by blast
    with Inr have "x # xs = (x # pre) @ r # post \<and> (\<forall>z\<in>set (x # pre). \<exists>y. f z = Inr y) \<and> f r = Inl e"
      by simp
    then show ?thesis by blast
  qed
qed

lemma slot_items_Inr_list:
  assumes "slot_items cfg k d = Inr es"
  shows "(map_of cfg k = None \<longrightarrow> es = [])
     \<and> (\<forall>rs. map_of cfg k = Some (PList rs) \<longrightarrow>
           length es = length rs \<and> (\<forall>i<length rs. d (rs ! i) = Inr (es ! i)))"
  using assms
  by (auto simp: slot_items_absent slot_items_list mapE_eq_Inr list_all2_conv_all_nth)

text \<open>
  Claim C3, as amended. When \<open>unmarshal\<close> raises, no instance is returned, but
  the caller's dict is not restored. Either the \<open>'database-name'\<close> lookup
  raised and the dict is as it was, or some block of the table raised. Then,
  if it is the first block, the dict is as it was; in general every key of a
  block before it is bound to the list of the entities decoded from its
  records, in order (the empty list when the input had not the key), and every
  other key, the failing slot's included, is bound as in the input. Where the
  failing slot is a list, the records before some record decode and that
  record raises the exception reported.
\<close>

theorem unmarshal_failure_state:
  assumes "unmarshal cfg = (Inl e, cfg')"
  shows "(e = KeyError ''database-name'' \<and> map_of cfg ''database-name'' = None \<and> cfg' = cfg)
       \<or> (\<exists>done k d rest. slot_table = done @ (k, d) # rest
            \<and> (done = [] \<longrightarrow> cfg' = cfg)
            \<and> (\<forall>rs. map_of cfg k = Some (PList rs) \<longrightarrow>
                  (\<exists>pre r post. rs = pre @ r # post \<and> (\<forall>x\<in>set pre. \<exists>y. d x = Inr y)
                     \<and> d r = Inl e))
            \<and> (\<forall>(k', d')\<in>set done. \<exists>es. map_of cfg' k' = Some (PList es)
                  \<and> (\<forall>x\<in>set es. is_obj x)
                  \<and> (map_of cfg k' = None \<longrightarrow> es = [])
                  \<and> (\<forall>rs. map_of cfg k' = Some (PList rs) \<longrightarrow>
                        length es = length rs \<and> (\<forall>i<length rs. d' (rs ! i) = Inr (es ! i))))
            \<and> (\<forall>k'. k' \<notin> fst ` set done \<longrightarrow> map_of cfg' k' = map_of cfg k'))"
proof -
  from unmarshal_eq_Inl [OF assms] show ?thesis
  proof
    assume "e = KeyError ''database-name'' \<and> map_of cfg ''database-name'' = None \<and> cfg' = cfg"
    then show ?thesis by (rule disjI1)
  next
    assume "run_slots slot_table cfg = (Some e, cfg')"
    from run_slots_failure [OF this] obtain dn k d rest where
      split: "slot_table = dn @ (k, d) # rest" and r: "run_slots dn cfg = (None, cfg')"
      and u: "unmarshal_slot k d cfg' = Inl e" by blast
    from distinct_slot_table have "distinct (map fst (dn @ (k, d) # rest))"
      by (simp only: split)
    then have dist: "distinct (map fst dn)" and knot: "k \<notin> fst ` set dn"
      by auto
    note ok = run_slots_ok [OF r dist]
    from ok knot have "map_of cfg' k = map_of cfg k" by blast
    then have "slot_items cfg' k d = slot_items cfg k d" by (rule slot_items_cong)
    with u have bad: "slot_items cfg k d = Inl e" by (simp add: unmarshal_slot_eq_Inl)
    have first: "dn = [] \<longrightarrow> cfg' = cfg" using r by auto
    have fail: "\<exists>pre r post. rs = pre @ r # post \<and> (\<forall>x\<in>set pre. \<exists>y. d x = Inr y) \<and> d r = Inl e"
      if "map_of cfg k = Some (PList rs)" for rs
    proof -
      from bad that have "mapE d rs = Inl e" by (simp add: slot_items_list)
      then show ?thesis by (rule mapE_eq_Inl)
    qed
    have conv: "\<exists>es. map_of cfg' k' = Some (PList es) \<and> (\<forall>x\<in>set es. is_obj x)
                  \<and> (map_of cfg k' = None \<longrightarrow> es = [])
                  \<and> (\<forall>rs. map_of cfg k' = Some (PList rs) \<longrightarrow>
                        length es = length rs \<and> (\<forall>i<length rs. d' (rs ! i) = Inr (es ! i)))"
      if mem: "(k', d') \<in> set dn" for k' d'
    proof -
      from mem ok obtain es where si: "slot_items cfg k' d' = Inr es"
        and v: "map_of cfg' k' = Some (PList es)" by blast
      from mem have "(k', d') \<in> set (dn @ (k, d) # rest)" by simp
      then have "(k', d') \<in> set slot_table" by (simp only: split)
      then have o: "\<forall>x\<in>set es. is_obj x" using si by (blast intro: slot_items_is_obj)
      from slot_items_Inr_list [OF si] v o show ?thesis by simp
    qed
    from ok have rest: "\<forall>k'. k' \<notin> fst ` set dn \<longrightarrow> map_of cfg' k' = map_of cfg k'" by blast
    show ?thesis
    proof (rule disjI2, intro exI conjI)
      show "slot_table = dn @ (k, d) # rest" by (rule split)
      show "dn = [] \<longrightarrow> cfg' = cfg" by (rule first)
      show "\<forall>rs. map_of cfg k = Some (PList rs) \<longrightarrow>
                  (\<exists>pre r post. rs = pre @ r # post \<and> (\<forall>x\<in>set pre. \<exists>y. d x = Inr y)
                     \<and> d r = Inl e)" using fail by simp
      show "\<forall>(k', d')\<in>set dn. \<exists>es. map_of cfg' k' = Some (PList es)
                  \<and> (\<forall>x\<in>set es. is_obj x)
                  \<and> (map_of cfg k' = None \<longrightarrow> es = [])
                  \<and> (\<forall>rs. map_of cfg k' = Some (PList rs) \<longrightarrow>
                        length es = length rs \<and> (\<forall>i<length rs. d' (rs ! i) = Inr (es ! i)))"
        using conv by auto
      show "\<forall>k'. k' \<notin> fst ` set dn \<longrightarrow> map_of cfg' k' = map_of cfg k'" by (rule rest)
    qed
  qed
qed

text \<open>
  On \<open>bogus_doc\<close> the merge blackout block raises after the element range index
  block has rebound its key: the caller's dict now holds an instance where it
  held the wire record.
\<close>

theorem unmarshal_failure_mutates_input:
  "unmarshal bogus_doc =
       (Inl (UnexpectedManagementAPIResponse ''Unparseable merge blackout period''), bogus_doc_after)
     \<and> map_of bogus_doc ''range-element-index'' = Some (PList [PDict range_record])
     \<and> map_of bogus_doc_after ''range-element-index'' =
         Some (PList [PObj ElementRangeIndex
                  [PStr ''int'', PStr [], PStr ''a'', PStr [], PBool True, PStr ''reject''] []])
     \<and> bogus_doc_after \<noteq> bogus_doc"
  by code_simp

theorem unmarshal_failure_state_witness:
  "unmarshal bogus_doc =
       (Inl (UnexpectedManagementAPIResponse ''Unparseable merge blackout period''), bogus_doc_after)
     \<and> map_of bogus_doc ''range-element-index'' = Some (PList [PDict range_record])
     \<and> (\<exists>es. map_of bogus_doc_after ''range-element-index'' = Some (PList es)
           \<and> length es = 1
           \<and> decode_element_range_index (PDict range_record) = Inr (es ! 0))"
proof -
  let ?e = "UnexpectedManagementAPIResponse ''Unparseable merge blackout period''"
  have u: "unmarshal bogus_doc = (Inl ?e, bogus_doc_after)"
    by code_simp
  have changed: "bogus_doc_after \<noteq> bogus_doc" by code_simp
  have m: "map_of bogus_doc ''range-element-index'' = Some (PList [PDict range_record])"
    by (simp add: bogus_doc_def)
  have "?e \<noteq> KeyError ''database-name''" by simp
  with unmarshal_failure_state [OF u] obtain dn k d rest where
    a: "slot_table = dn @ (k, d) # rest"
    and first: "dn = [] \<longrightarrow> bogus_doc_after = bogus_doc"
    and c: "\<forall>(k', d')\<in>set dn. \<exists>es. map_of bogus_doc_after k' = Some (PList es)
                  \<and> (\<forall>x\<in>set es. is_obj x)
                  \<and> (map_of bogus_doc k' = None \<longrightarrow> es = [])
                  \<and> (\<forall>rs. map_of bogus_doc k' = Some (PList rs) \<longrightarrow>
                        length es = length rs \<and> (\<forall>i<length rs. d' (rs ! i) = Inr (es ! i)))"
    by auto
  from first changed have ne: "dn \<noteq> []" by auto
  have "hd (dn @ (k, d) # rest) = hd slot_table" by (simp only: a)
  with ne have "hd dn = hd slot_table" by simp
  moreover have "hd slot_table = (''range-element-index'', decode_element_range_index)"
    by (simp add: slot_table_def)
  ultimately have "(''range-element-index'', decode_element_range_index) \<in> set dn"
    using ne hd_in_set [of dn] by simp
  with c m obtain es where v: "map_of bogus_doc_after ''range-element-index'' = Some (PList es)"
    and l: "length es = length [PDict range_record]"
    and d: "\<forall>i<length [PDict range_record].
        decode_element_range_index ([PDict range_record] ! i) = Inr (es ! i)"
    by fastforce
  from l have l1: "length es = 1" by simp
  from d have d0: "decode_element_range_index (PDict range_record) = Inr (es ! 0)" by simp
  from u m v l1 d0 show ?thesis by blast
qed

section \<open>Fields\<close>

lemma include_root_dict: "include_root (PDict r) = Inr v \<Longrightarrow> \<exists>b. v = PBool b"
  by (auto simp: include_root_def ifE_def eq_true_def contains_def bindE_eq_Inr split: if_splits)

lemma decode_field_dict:
  assumes "decode_field (PDict r) = Inr e"
  shows "\<exists>name. map_of r ''field-name'' = Some name
      \<and> (''field-path'' \<in> fst ` set r \<longrightarrow>
            (\<exists>paths. e = PObj PathField [name, PList paths] [(''unmarshal'', PDict r)]))
      \<and> (''field-path'' \<notin> fst ` set r \<and> name = PStr [] \<longrightarrow>
            (\<exists>b. e = PObj WordQuery [PBool b] [(''unmarshal'', PDict r)]))
      \<and> (''field-path'' \<notin> fst ` set r \<and> name \<noteq> PStr [] \<longrightarrow>
            (\<exists>b. e = PObj RootField [name, PBool b] [(''unmarshal'', PDict r)]))"
proof -
  from assms obtain name temp where n: "map_of r ''field-name'' = Some name"
    and t: "ifE (contains ''field-path'' (PDict r))
          (bindE (bindE (getitem (PDict r) ''field-path'') iter) (\<lambda>items.
           bindE (mapE decode_field_path items) (\<lambda>paths.
             new PathField [Inr name, Inr (PList paths)])))
          (bindE (include_root (PDict r)) (\<lambda>root.
            ifE (eqE (getitem (PDict r) ''field-name'') (PStr []))
              (new WordQuery [Inr root])
              (new RootField [Inr name, Inr root]))) = Inr temp"
    and rc: "record_call ''unmarshal'' (PDict r) temp = Inr e"
    unfolding decode_field_def by (auto simp: bindE_eq_Inr)
  have a: "\<exists>paths. e = PObj PathField [name, PList paths] [(''unmarshal'', PDict r)]"
    if "''field-path'' \<in> fst ` set r"
    using t rc that
    by (auto simp: ifE_def contains_def bindE_eq_Inr new_eq_Inr record_call_eq_Inr)
  have b: "\<exists>b. e = PObj WordQuery [PBool b] [(''unmarshal'', PDict r)]"
    if "''field-path'' \<notin> fst ` set r" "name = PStr []"
    using t rc that n
    by (auto simp: ifE_def contains_def eqE_def bindE_eq_Inr new_eq_Inr record_call_eq_Inr
        dest!: include_root_dict)
  have c: "\<exists>b. e = PObj RootField [name, PBool b] [(''unmarshal'', PDict r)]"
    if "''field-path'' \<notin> fst ` set r" "name \<noteq> PStr []"
    using t rc that n
    by (auto simp: ifE_def contains_def eqE_def bindE_eq_Inr new_eq_Inr record_call_eq_Inr
        dest!: include_root_dict)
  from n a b c show ?thesis by blast
qed

text \<open>
  Claim C7. Let \<open>unmarshal\<close> succeed on a document whose \<open>'field'\<close> slot is a list,
  and let its \<open>i\<close>-th record be \<open>r\<close>. Then \<open>r\<close> has a \<open>field-name\<close>, and the
  \<open>i\<close>-th decoded entity is a \<open>PathField\<close> of that name if \<open>r\<close> has the key
  \<open>field-path\<close>, whatever the name; otherwise a \<open>WordQuery\<close> if the name is the
  empty string; otherwise a \<open>RootField\<close> of that name.
\<close>

theorem field_discrimination:
  assumes "fst (unmarshal cfg) = Inr db"
    and "map_of cfg ''field'' = Some (PList rs)"
    and "i < length rs" and "rs ! i = PDict r"
  shows "\<exists>es name. map_of (config db) ''field'' = Some (PList es) \<and> length es = length rs
      \<and> map_of r ''field-name'' = Some name
      \<and> (''field-path'' \<in> fst ` set r \<longrightarrow>
            (\<exists>paths. es ! i = PObj PathField [name, PList paths] [(''unmarshal'', PDict r)]))
      \<and> (''field-path'' \<notin> fst ` set r \<and> name = PStr [] \<longrightarrow>
            (\<exists>b. es ! i = PObj WordQuery [PBool b] [(''unmarshal'', PDict r)]))
      \<and> (''field-path'' \<notin> fst ` set r \<and> name \<noteq> PStr [] \<longrightarrow>
            (\<exists>b. es ! i = PObj RootField [name, PBool b] [(''unmarshal'', PDict r)]))"
proof -
  from unmarshal_list_slot [OF assms(1) slot_table_mem(3) assms(2)] obtain es where
    v: "map_of (config db) ''field'' = Some (PList es)" and l: "length es = length rs"
    and d: "\<forall>i<length rs. decode_field (rs ! i) = Inr (es ! i)" by blast
  from d assms(3,4) have "decode_field (PDict r) = Inr (es ! i)" by auto
  from decode_field_dict [OF this] v l show ?thesis by blast
qed

theorem field_discrimination_witness:
  "\<exists>db es. fst (unmarshal field_doc) = Inr db
     \<and> map_of (config db) ''field'' = Some (PList es)
     \<and> length es = 3
     \<and> (\<exists>paths. es ! 0 = PObj PathField [PStr [], PList paths]
                            [(''unmarshal'', PDict path_field_record)])
     \<and> (\<exists>b. es ! 1 = PObj WordQuery [PBool b] [(''unmarshal'', PDict word_query_record)])
     \<and> (\<exists>b. es ! 2 = PObj RootField [PStr ''title'', PBool b]
                        [(''unmarshal'', PDict root_field_record)])"
proof -
  have "\<not> isl (fst (unmarshal field_doc))" by code_simp
  then obtain db where db: "fst (unmarshal field_doc) = Inr db"
    by (cases "fst (unmarshal field_doc)") auto
  let ?rs = "[PDict path_field_record, PDict word_query_record, PDict root_field_record]"
  have m: "map_of field_doc ''field'' = Some (PList ?rs)"
    by (simp add: field_doc_def)
  have k0: "''field-path'' \<in> fst ` set path_field_record"
    and n0: "map_of path_field_record ''field-name'' = Some (PStr [])"
    by (simp_all add: path_field_record_def)
  have k1: "''field-path'' \<notin> fst ` set word_query_record"
    and n1: "map_of word_query_record ''field-name'' = Some (PStr [])"
    by (simp_all add: word_query_record_def)
  have k2: "''field-path'' \<notin> fst ` set root_field_record"
    and n2: "map_of root_field_record ''field-name'' = Some (PStr ''title'')"
    by (simp_all add: root_field_record_def)
  from field_discrimination [OF db m, of 0 path_field_record] k0 n0
  obtain es where es: "map_of (config db) ''field'' = Some (PList es)"
    and l: "length es = 3"
    and e0: "\<exists>paths. es ! 0 = PObj PathField [PStr [], PList paths]
                            [(''unmarshal'', PDict path_field_record)]"
    by auto
  from field_discrimination [OF db m, of 1 word_query_record] k1 n1 es
  have e1: "\<exists>b. es ! 1 = PObj WordQuery [PBool b] [(''unmarshal'', PDict word_query_record)]"
    by auto
  from field_discrimination [OF db m, of 2 root_field_record] k2 n2 es
  have e2: "\<exists>b. es ! 2 = PObj RootField [PStr ''title'', PBool b]
                        [(''unmarshal'', PDict root_field_record)]"
    by auto
  from db es l e0 e1 e2 show ?thesis by blast
qed

section \<open>The dict after a successful \<open>unmarshal\<close>\<close>

lemma known_slot_decoder:
  assumes "k \<in> set config_slots \<union> {''field''}"
  shows "\<exists>d. (k, d) \<in> set slot_table"
proof -
  from assms have "k \<in> fst ` set slot_table" by (simp only: slot_table_keys)
  then show ?thesis by force
qed

lemma unmarshal_known_slot:
  assumes "fst (unmarshal cfg) = Inr db" and "k \<in> set config_slots \<union> {''field''}"
  shows "\<exists>es. map_of (config db) k = Some (PList es) \<and> (\<forall>e\<in>set es. is_obj e)
            \<and> (map_of cfg k = None \<longrightarrow> es = [])"
proof -
  from known_slot_decoder [OF assms(2)] obtain d where tbl: "(k, d) \<in> set slot_table" ..
  from unmarshal_slot_value [OF assms(1) tbl] obtain es where
    si: "slot_items cfg k d = Inr es" and v: "map_of (config db) k = Some (PList es)" by blast
  from tbl si have "\<forall>e\<in>set es. is_obj e" by (blast intro: slot_items_is_obj)
  moreover from si have "map_of cfg k = None \<longrightarrow> es = []" by (auto simp: slot_items_absent)
  ultimately show ?thesis using v by simp
qed

lemma decoders_reject_instances:
  assumes "(k, d) \<in> set slot_table"
  shows "d (PObj c as calls) = Inl TypeError"
proof -
  have "\<forall>kd\<in>set slot_table. snd kd (PObj c as calls) = Inl TypeError"
    unfolding slot_table_def
    by (simp add: decode_element_range_index_def decode_field_range_index_def
      decode_attribute_range_index_def decode_path_range_index_def
      decode_geospatial_element_index_def decode_geospatial_path_index_def
      decode_geospatial_element_child_index_def decode_geospatial_element_pair_index_def
      decode_geospatial_element_attribute_pair_index_def decode_fragment_root_def
      decode_fragment_parent_def decode_path_namespace_def decode_element_word_lexicon_def
      decode_attribute_word_lexicon_def decode_element_word_query_through_def
      decode_phrase_through_def decode_phrase_around_def decode_ruleset_def
      decode_merge_blackout_def decode_backup_def decode_field_def incremental_def
      new_def getitem_def contains_def ifE_def andE_def eqE_def)
  with assms show ?thesis by fastforce
qed

text \<open>
  Claim C9. \<open>unmarshal\<close> works on the caller's dict: after a successful call the
  new instance's \<open>_config\<close> is that dict as the call leaves it. There every
  known slot key is bound to the list of the entities that the slot's decoder
  gives for the input's records, in order: instances, as many as the records,
  and none when the input had not the key. Where the input bound the key to a
  non-empty list of wire records, the binding has changed. Every other key is
  bound as before.
\<close>

theorem unmarshal_rebinds_input:
  assumes "unmarshal cfg = (Inr db, cfg')"
  shows "config db = cfg'
     \<and> (\<forall>k\<in>set config_slots \<union> {''field''}.
          \<exists>d es. (k, d) \<in> set slot_table \<and> map_of cfg' k = Some (PList es)
             \<and> (\<forall>e\<in>set es. is_obj e)
             \<and> (map_of cfg k = None \<longrightarrow> es = [])
             \<and> (\<forall>rs. map_of cfg k = Some (PList rs) \<longrightarrow>
                   length es = length rs \<and> (\<forall>i<length rs. d (rs ! i) = Inr (es ! i))
                   \<and> (rs \<noteq> [] \<longrightarrow> map_of cfg' k \<noteq> map_of cfg k)))
     \<and> (\<forall>k. k \<notin> set config_slots \<union> {''field''} \<longrightarrow> map_of cfg' k = map_of cfg k)"
proof -
  from assms have ok: "fst (unmarshal cfg) = Inr db" and s: "snd (unmarshal cfg) = cfg'"
    by simp_all
  from unmarshal_eq_Inr(2) [OF ok] s have same: "config db = cfg'" by simp
  have slot: "\<exists>d es. (k, d) \<in> set slot_table \<and> map_of cfg' k = Some (PList es)
             \<and> (\<forall>e\<in>set es. is_obj e)
             \<and> (map_of cfg k = None \<longrightarrow> es = [])
             \<and> (\<forall>rs. map_of cfg k = Some (PList rs) \<longrightarrow>
                   length es = length rs \<and> (\<forall>i<length rs. d (rs ! i) = Inr (es ! i))
                   \<and> (rs \<noteq> [] \<longrightarrow> map_of cfg' k \<noteq> map_of cfg k))"
    if k: "k \<in> set config_slots \<union> {''field''}" for k
  proof -
    from known_slot_decoder [OF k] obtain d where tbl: "(k, d) \<in> set slot_table" ..
    from unmarshal_slot_value [OF ok tbl] same obtain es where
      si: "slot_items cfg k d = Inr es" and v: "map_of cfg' k = Some (PList es)" by auto
    from tbl si have o: "\<forall>e\<in>set es. is_obj e" by (blast intro: slot_items_is_obj)
    note l = slot_items_Inr_list [OF si]
    have ne: "map_of cfg' k \<noteq> map_of cfg k" if rs: "map_of cfg k = Some (PList rs)" "rs \<noteq> []" for rs
    proof
      assume "map_of cfg' k = map_of cfg k"
      with v rs have eq: "es = rs" by simp
      from l rs eq have "d (rs ! 0) = Inr (rs ! 0)" by auto
      moreover from o eq rs(2) have "is_obj (rs ! 0)" by auto
      then obtain c as calls where "rs ! 0 = PObj c as calls"
        by (cases "rs ! 0") (simp_all add: is_obj_def)
      ultimately show False using decoders_reject_instances [OF tbl] by simp
    qed
    from tbl v o l ne show ?thesis by (intro exI [of _ d] exI [of _ es]) simp
  qed
  have other: "map_of cfg' k = map_of cfg k" if "k \<notin> set config_slots \<union> {''field''}" for k
  proof -
    from that have "k \<notin> fst ` set slot_table" unfolding slot_table_keys .
    from unmarshal_other_keys [OF ok this] same show ?thesis by simp
  qed
  from same slot other show ?thesis by (intro conjI ballI allI impI)
qed

lemma list_of_three:
  assumes "length es = 3"
  shows "es = [es ! 0, es ! 1, es ! 2]"
proof -
  from assms obtain a b c where "es = [a, b, c]"
    by (metis (no_types) length_0_conv length_Suc_conv numeral_3_eq_3)
  then show ?thesis by simp
qed

theorem unmarshal_rebinds_input_witness:
  "\<exists>db cfg'. unmarshal blackout_doc = (Inr db, cfg') \<and> config db = cfg'
     \<and> map_of cfg' ''merge-blackout'' =
         Some (PList
           [PObj MergeBlackout_recurringAllDay
              [PStr ''lower'', PNum 4, PList [PStr ''monday'']] [],
            PObj MergeBlackout_recurringDuration
              [PStr ''lower'', PNum 4, PList [PStr ''monday''], PStr ''08:00:00'', PStr ''P1H''] [],
            PObj MergeBlackout_recurringDuration
              [PStr ''lower'', PNum 4, PList [PStr ''monday''], PStr ''08:00:00'', PStr ''P1H''] []])
     \<and> map_of cfg' ''merge-blackout'' \<noteq> map_of blackout_doc ''merge-blackout''
     \<and> map_of cfg' ''field'' = Some (PList [])
     \<and> map_of cfg' ''database-name'' = Some (PStr ''db'')"
proof -
  have "\<not> isl (fst (unmarshal blackout_doc))" by code_simp
  then obtain db where "fst (unmarshal blackout_doc) = Inr db"
    by (cases "fst (unmarshal blackout_doc)") auto
  then obtain cfg' where u: "unmarshal blackout_doc = (Inr db, cfg')"
    by (cases "unmarshal blackout_doc") auto
  let ?rs = "[PDict all_day_record, PDict duration_record, PDict both_record]"
  have k1: "''merge-blackout'' \<in> set config_slots \<union> {''field''}"
    and k2: "''field'' \<in> set config_slots \<union> {''field''}"
    and k3: "''database-name'' \<notin> set config_slots \<union> {''field''}"
    by (simp_all add: config_slots_def)
  have m: "map_of blackout_doc ''merge-blackout'' = Some (PList ?rs)"
    and f: "map_of blackout_doc ''field'' = None"
    and n: "map_of blackout_doc ''database-name'' = Some (PStr ''db'')"
    by (simp_all add: blackout_doc_def)
  from unmarshal_rebinds_input [OF u] have c: "config db = cfg'"
    and b: "\<forall>k\<in>set config_slots \<union> {''field''}.
          \<exists>d es. (k, d) \<in> set slot_table \<and> map_of cfg' k = Some (PList es)
             \<and> (\<forall>e\<in>set es. is_obj e)
             \<and> (map_of blackout_doc k = None \<longrightarrow> es = [])
             \<and> (\<forall>rs. map_of blackout_doc k = Some (PList rs) \<longrightarrow>
                   length es = length rs \<and> (\<forall>i<length rs. d (rs ! i) = Inr (es ! i))
                   \<and> (rs \<noteq> [] \<longrightarrow> map_of cfg' k \<noteq> map_of blackout_doc k))"
    and o: "\<forall>k. k \<notin> set config_slots \<union> {''field''} \<longrightarrow> map_of cfg' k = map_of blackout_doc k"
    by simp_all
  from b [rule_format, OF k1] m obtain d es where tbl: "(''merge-blackout'', d) \<in> set slot_table"
    and v: "map_of cfg' ''merge-blackout'' = Some (PList es)"
    and l: "length es = length ?rs"
    and dd: "\<forall>i<length ?rs. d (?rs ! i) = Inr (es ! i)"
    and ne: "map_of cfg' ''merge-blackout'' \<noteq> map_of blackout_doc ''merge-blackout''"
    by auto
  from tbl slot_table_mem(1) have d: "d = decode_merge_blackout"
    using eq_key_imp_eq_value [OF distinct_slot_table] by blast
  have v0: "decode_merge_blackout (PDict all_day_record) =
      Inr (PObj MergeBlackout_recurringAllDay [PStr ''lower'', PNum 4, PList [PStr ''monday'']] [])"
    and v1: "decode_merge_blackout (PDict duration_record) =
      Inr (PObj MergeBlackout_recurringDuration
        [PStr ''lower'', PNum 4, PList [PStr ''monday''], PStr ''08:00:00'', PStr ''P1H''] [])"
    and v2: "decode_merge_blackout (PDict both_record) =
      Inr (PObj MergeBlackout_recurringDuration
        [PStr ''lower'', PNum 4, PList [PStr ''monday''], PStr ''08:00:00'', PStr ''P1H''] [])"
    by code_simp+
  from dd [rule_format, of 0] d v0
  have e0: "es ! 0 = PObj MergeBlackout_recurringAllDay
      [PStr ''lower'', PNum 4, PList [PStr ''monday'']] []" by simp
  from dd [rule_format, of 1] d v1
  have e1: "es ! 1 = PObj MergeBlackout_recurringDuration
        [PStr ''lower'', PNum 4, PList [PStr ''monday''], PStr ''08:00:00'', PStr ''P1H''] []"
    by simp
  from dd [rule_format, of 2] d v2
  have e2: "es ! 2 = PObj MergeBlackout_recurringDuration
        [PStr ''lower'', PNum 4, PList [PStr ''monday''], PStr ''08:00:00'', PStr ''P1H''] []"
    by simp
  from l have "length es = 3" by simp
  from list_of_three [OF this] e0 e1 e2 v
  have v': "map_of cfg' ''merge-blackout'' =
         Some (PList
           [PObj MergeBlackout_recurringAllDay
              [PStr ''lower'', PNum 4, PList [PStr ''monday'']] [],
            PObj MergeBlackout_recurringDuration
              [PStr ''lower'', PNum 4, PList [PStr ''monday''], PStr ''08:00:00'', PStr ''P1H''] [],
            PObj MergeBlackout_recurringDuration
              [PStr ''lower'', PNum 4, PList [PStr ''monday''], PStr ''08:00:00'', PStr ''P1H''] []])"
    by simp
  from b [rule_format, OF k2] f have fv: "map_of cfg' ''field'' = Some (PList [])" by auto
  from o [rule_format, OF k3] n have nv: "map_of cfg' ''database-name'' = Some (PStr ''db'')"
    by simp
  from u c v' ne fv nv show ?thesis by blast
qed

section \<open>\<open>marshal\<close> after \<open>unmarshal\<close>\<close>

lemma mapE_pointwise:
  assumes "\<forall>x\<in>set xs. f x = Inr (h x)"
  shows "mapE f xs = Inr (map h xs)"
  using assms by (induction xs) simp_all

lemma attr_config_objs:
  assumes "\<forall>e\<in>set es. is_obj e"
  shows "mapE (attr_config cf) es = Inr (map cf es)"
proof (rule mapE_pointwise, rule ballI)
  fix e assume "e \<in> set es"
  with assms have "is_obj e" by simp
  then show "attr_config cf e = Inr (cf e)"
    by (cases e) (simp_all add: is_obj_def attr_config_def)
qed

lemma call_marshal_objs:
  assumes "\<forall>e\<in>set es. is_obj e"
  shows "mapE (call_marshal fm) es = Inr (map fm es)"
proof (rule mapE_pointwise, rule ballI)
  fix e assume "e \<in> set es"
  with assms have "is_obj e" by simp
  then show "call_marshal fm e = Inr (fm e)"
    by (cases e) (simp_all add: is_obj_def call_marshal_def)
qed

lemma marshal_key_after_unmarshal:
  assumes "fst (unmarshal cfg) = Inr db" and "key \<in> set (map fst (config db))"
  shows "marshal_key cf fm (config db) key = Inr (key, encoded cf fm (config db) key)"
proof (cases "key \<in> set config_slots \<union> {''field''}")
  case True
  from unmarshal_known_slot [OF assms(1) True] obtain es where
    v: "map_of (config db) key = Some (PList es)" and o: "\<forall>e\<in>set es. is_obj e" by blast
  show ?thesis
  proof (cases "key \<in> set config_slots")
    case True
    with v attr_config_objs [OF o, of cf] show ?thesis
      by (simp add: marshal_key_def encoded_def getitem_def iter_def)
  next
    case False
    with \<open>key \<in> set config_slots \<union> {''field''}\<close> have f: "key = ''field''" by simp
    with False v call_marshal_objs [OF o, of fm] show ?thesis
      by (simp add: marshal_key_def encoded_def getitem_def iter_def)
  qed
next
  case False
  from assms(2) obtain v where v: "map_of (config db) key = Some v"
    by (metis map_of_eq_None_iff not_None_eq set_map)
  with False show ?thesis
    by (cases v) (simp_all add: marshal_key_def encoded_def getitem_def)
qed

lemma marshal_after_unmarshal:
  assumes "fst (unmarshal cfg) = Inr db"
  shows "marshal cf fm db =
           Inr (map (\<lambda>key. (key, encoded cf fm (config db) key)) (map fst (config db)))"
  unfolding marshal_def
  by (rule mapE_pointwise) (simp add: marshal_key_after_unmarshal [OF assms])

lemma map_of_keyed:
  "map_of (map (\<lambda>key. (key, g key)) ks) k = (if k \<in> set ks then Some (g k) else None)"
  by (induction ks) auto

lemma marshal_lookup:
  assumes "fst (unmarshal cfg) = Inr db" and "marshal cf fm db = Inr out"
    and "map_of (config db) k = Some v"
  shows "map_of out k = Some (encoded cf fm (config db) k)"
proof -
  from assms(3) have "k \<in> set (map fst (config db))"
    by (metis map_of_eq_None_iff option.distinct(1) set_map)
  then have "map_of (map (\<lambda>key. (key, encoded cf fm (config db) key)) (map fst (config db))) k
      = Some (encoded cf fm (config db) k)"
    by (simp only: map_of_keyed if_True)
  moreover from assms(2) marshal_after_unmarshal [OF assms(1), of cf fm]
  have "out = map (\<lambda>key. (key, encoded cf fm (config db) key)) (map fst (config db))"
    by (simp del: map_map)
  ultimately show ?thesis by (simp only:)
qed

section \<open>Order and presence of the slots\<close>

text \<open>
  Claim C5. Let \<open>unmarshal\<close> succeed on a document. Then \<open>marshal\<close> of the result
  succeeds, and for every known slot that the document binds to a list of
  records, the output binds the slot to a list of the same length whose
  \<open>i\<close>-th item is the encoding (\<open>_config\<close>, or \<open>marshal()\<close> for a field) of the
  entity decoded from the \<open>i\<close>-th record. A key that is not a known slot is
  copied with its value, so its items keep their order too.
\<close>

theorem marshal_unmarshal_order:
  assumes "fst (unmarshal cfg) = Inr db"
  shows "\<exists>out. marshal cf fm db = Inr out
     \<and> (\<forall>k d rs. (k, d) \<in> set slot_table \<and> map_of cfg k = Some (PList rs) \<longrightarrow>
          (\<exists>es. length es = length rs \<and> (\<forall>i<length rs. d (rs ! i) = Inr (es ! i))
             \<and> map_of out k = Some (PList (map (if k = ''field'' then fm else cf) es))))
     \<and> (\<forall>k v. k \<notin> fst ` set slot_table \<and> map_of cfg k = Some v \<longrightarrow> map_of out k = Some v)"
proof -
  define out where "out = map (\<lambda>key. (key, encoded cf fm (config db) key)) (map fst (config db))"
  have m: "marshal cf fm db = Inr out"
    unfolding out_def by (rule marshal_after_unmarshal [OF assms])
  have known: "\<exists>es. length es = length rs \<and> (\<forall>i<length rs. d (rs ! i) = Inr (es ! i))
             \<and> map_of out k = Some (PList (map (if k = ''field'' then fm else cf) es))"
    if tbl: "(k, d) \<in> set slot_table" and rs: "map_of cfg k = Some (PList rs)" for k d rs
  proof -
    from unmarshal_list_slot [OF assms tbl rs] obtain es where
      v: "map_of (config db) k = Some (PList es)" and l: "length es = length rs"
      and d: "\<forall>i<length rs. d (rs ! i) = Inr (es ! i)" by blast
    from tbl have "k \<in> fst ` set slot_table" by force
    then have k: "k \<in> set config_slots \<union> {''field''}" by (simp only: slot_table_keys)
    have nf: "''field'' \<notin> set config_slots" by (simp add: config_slots_def)
    from k nf v have "encoded cf fm (config db) k = PList (map (if k = ''field'' then fm else cf) es)"
      by (auto simp: encoded_def)
    with marshal_lookup [OF assms m v] l d show ?thesis by auto
  qed
  have other: "map_of out k = Some v"
    if k: "k \<notin> fst ` set slot_table" and v: "map_of cfg k = Some v" for k v
  proof -
    from unmarshal_other_keys [OF assms k] v have v': "map_of (config db) k = Some v" by simp
    from k have "k \<notin> set config_slots \<union> {''field''}" unfolding slot_table_keys .
    then have k1: "k \<notin> set config_slots" and k2: "k \<noteq> ''field''" by auto
    have "encoded cf fm (config db) k = v"
      by (cases v) (simp_all add: encoded_def v' k1 k2)
    with marshal_lookup [OF assms m v'] show ?thesis by simp
  qed
  show ?thesis
  proof (rule exI [of _ out], intro conjI allI impI)
    show "marshal cf fm db = Inr out" by (rule m)
  next
    fix k d rs
    assume "(k, d) \<in> set slot_table \<and> map_of cfg k = Some (PList rs)"
    then show "\<exists>es. length es = length rs \<and> (\<forall>i<length rs. d (rs ! i) = Inr (es ! i))
             \<and> map_of out k = Some (PList (map (if k = ''field'' then fm else cf) es))"
      using known by simp
  next
    fix k v
    assume "k \<notin> fst ` set slot_table \<and> map_of cfg k = Some v"
    then show "map_of out k = Some v" using other by simp
  qed
qed

theorem marshal_unmarshal_order_witness:
  "\<exists>db out es. fst (unmarshal blackout_doc) = Inr db \<and> marshal id id db = Inr out
     \<and> map_of out ''merge-blackout'' = Some (PList es) \<and> length es = 3
     \<and> decode_merge_blackout (PDict all_day_record) = Inr (es ! 0)
     \<and> decode_merge_blackout (PDict duration_record) = Inr (es ! 1)
     \<and> decode_merge_blackout (PDict both_record) = Inr (es ! 2)
     \<and> map_of out ''database-name'' = Some (PStr ''db'')"
proof -
  have "\<not> isl (fst (unmarshal blackout_doc))" by code_simp
  then obtain db where db: "fst (unmarshal blackout_doc) = Inr db"
    by (cases "fst (unmarshal blackout_doc)") auto
  let ?rs = "[PDict all_day_record, PDict duration_record, PDict both_record]"
  have slot: "(''merge-blackout'', decode_merge_blackout) \<in> set slot_table
      \<and> map_of blackout_doc ''merge-blackout'' = Some (PList ?rs)"
    by (simp add: blackout_doc_def slot_table_mem)
  have "''database-name'' \<notin> set (map fst slot_table)"
    unfolding map_fst_slot_table by simp
  then have nm: "''database-name'' \<notin> fst ` set slot_table
      \<and> map_of blackout_doc ''database-name'' = Some (PStr ''db'')"
    by (simp add: blackout_doc_def)
  from marshal_unmarshal_order [OF db, of id id] obtain out where
    m: "marshal id id db = Inr out"
    and k: "\<forall>k d rs. (k, d) \<in> set slot_table \<and> map_of blackout_doc k = Some (PList rs) \<longrightarrow>
          (\<exists>es. length es = length rs \<and> (\<forall>i<length rs. d (rs ! i) = Inr (es ! i))
             \<and> map_of out k = Some (PList (map (if k = ''field'' then id else id) es)))"
    and o: "\<forall>k v. k \<notin> fst ` set slot_table \<and> map_of blackout_doc k = Some v
          \<longrightarrow> map_of out k = Some v"
    by blast
  from k [rule_format, OF slot] obtain es where l: "length es = length ?rs"
    and d: "\<forall>i<length ?rs. decode_merge_blackout (?rs ! i) = Inr (es ! i)"
    and v: "map_of out ''merge-blackout'' = Some (PList es)"
    by auto
  from d [rule_format, of 0] have d0: "decode_merge_blackout (PDict all_day_record) = Inr (es ! 0)"
    by simp
  from d [rule_format, of 1] have d1: "decode_merge_blackout (PDict duration_record) = Inr (es ! 1)"
    by simp
  from d [rule_format, of 2] have d2: "decode_merge_blackout (PDict both_record) = Inr (es ! 2)"
    by simp
  from o [rule_format, OF nm] have n: "map_of out ''database-name'' = Some (PStr ''db'')" .
  from l have l3: "length es = 3" by simp
  from db m v l3 d0 d1 d2 n show ?thesis by blast
qed

text \<open>
  Claim C10. After a successful \<open>unmarshal\<close>, every key of the blocks of
  \<open>unmarshal\<close> (the keys of \<open>config_slots\<close> and \<open>'field'\<close>, by
  \<open>slot_table_keys\<close>) is bound to a list, the empty one when the input had not
  the key; \<open>marshal\<close> then succeeds and writes every one of these keys with a
  list, the empty one when the input had not the key.
\<close>

theorem unmarshal_binds_every_slot:
  assumes "fst (unmarshal cfg) = Inr db"
  shows "\<forall>k\<in>set config_slots \<union> {''field''}.
          \<exists>es out js. map_of (config db) k = Some (PList es) \<and> (map_of cfg k = None \<longrightarrow> es = [])
             \<and> marshal cf fm db = Inr out \<and> map_of out k = Some (PList js)
             \<and> (map_of cfg k = None \<longrightarrow> js = [])"
proof
  fix k assume k: "k \<in> set config_slots \<union> {''field''}"
  from unmarshal_known_slot [OF assms k] obtain es where
    v: "map_of (config db) k = Some (PList es)" and e: "map_of cfg k = None \<longrightarrow> es = []"
    by auto
  define out where "out = map (\<lambda>key. (key, encoded cf fm (config db) key)) (map fst (config db))"
  have m: "marshal cf fm db = Inr out"
    unfolding out_def by (rule marshal_after_unmarshal [OF assms])
  have nf: "''field'' \<notin> set config_slots" by (simp add: config_slots_def)
  from k nf v have "encoded cf fm (config db) k = PList (map (if k = ''field'' then fm else cf) es)"
    by (auto simp: encoded_def)
  with marshal_lookup [OF assms m v]
  have o: "map_of out k = Some (PList (map (if k = ''field'' then fm else cf) es))" by simp
  from e have "map_of cfg k = None \<longrightarrow> map (if k = ''field'' then fm else cf) es = []" by simp
  with v e m o show "\<exists>es out js. map_of (config db) k = Some (PList es)
             \<and> (map_of cfg k = None \<longrightarrow> es = [])
             \<and> marshal cf fm db = Inr out \<and> map_of out k = Some (PList js)
             \<and> (map_of cfg k = None \<longrightarrow> js = [])"
    by auto
qed

theorem unmarshal_binds_every_slot_witness:
  "\<exists>db out. fst (unmarshal minimal_doc) = Inr db \<and> marshal id id db = Inr out
     \<and> map_of minimal_doc ''merge-blackout'' = None
     \<and> map_of (config db) ''merge-blackout'' = Some (PList [])
     \<and> map_of out ''merge-blackout'' = Some (PList [])
     \<and> map_of minimal_doc ''field'' = None
     \<and> map_of (config db) ''field'' = Some (PList [])
     \<and> map_of out ''field'' = Some (PList [])"
proof -
  have "\<not> isl (fst (unmarshal minimal_doc))" by code_simp
  then obtain db where db: "fst (unmarshal minimal_doc) = Inr db"
    by (cases "fst (unmarshal minimal_doc)") auto
  have k1: "''merge-blackout'' \<in> set config_slots \<union> {''field''}"
    and k2: "''field'' \<in> set config_slots \<union> {''field''}"
    by (simp_all add: config_slots_def)
  have a1: "map_of minimal_doc ''merge-blackout'' = None"
    and a2: "map_of minimal_doc ''field'' = None"
    by (simp_all add: minimal_doc_def)
  note th = unmarshal_binds_every_slot [OF db, of id id]
  from th [rule_format, OF k1] a1 obtain out where m: "marshal id id db = Inr out"
    and c1: "map_of (config db) ''merge-blackout'' = Some (PList [])"
    and o1: "map_of out ''merge-blackout'' = Some (PList [])"
    by auto
  from th [rule_format, OF k2] a2 m have c2: "map_of (config db) ''field'' = Some (PList [])"
    and o2: "map_of out ''field'' = Some (PList [])"
    by auto
  from db m a1 c1 o1 a2 c2 o2 show ?thesis by blast
qed

section \<open>Slot getters\<close>






text \<open>
  After \<open>unmarshal\<close> the key that \<open>element_word_query_throughs\<close> tests is
  present and the key it reads is not, unless the input had it.
\<close>

lemma element_word_query_throughs_after_unmarshal:
  assumes "fst (unmarshal cfg) = Inr db" and "map_of cfg ''element-word-query_through'' = None"
  shows "element_word_query_throughs db = Inl (KeyError ''element-word-query_through'')"
proof -
  have "''element-word-query-through'' \<in> set config_slots \<union> {''field''}"
    by (simp add: config_slots_def)
  from unmarshal_known_slot [OF assms(1) this] obtain es where
    "map_of (config db) ''element-word-query-through'' = Some (PList es)" by auto
  then have "(''element-word-query-through'', PList es) \<in> set (config db)"
    by (rule map_of_SomeD)
  then have present: "''element-word-query-through'' \<in> set (map fst (config db))"
    by force
  have "''element-word-query_through'' \<notin> set (map fst slot_table)"
    unfolding map_fst_slot_table by simp
  then have "''element-word-query_through'' \<notin> fst ` set slot_table" by simp
  from unmarshal_other_keys [OF assms(1) this] assms(2)
  have "map_of (config db) ''element-word-query_through'' = None" by simp
  with present show ?thesis
    by (simp add: element_word_query_throughs_def getitem_def del: set_map)
qed



section \<open>The word query setter\<close>

lemma set_word_query_fresh:
  "set_word_query fname word_query_1 (Database n) =
     (Inr (), (Database n)\<lparr>config := config (Database n) @ [(''field'', PList [word_query_1])]\<rparr>)"
  by (simp add: set_word_query_def Database_def iter_def assert_type_def is_WordQuery_def
      word_query_1_def append_item_def)

text \<open>
  Claim C4 fails on the code. On a fresh \<open>Database\<close> the first call appends its
  \<open>WordQuery\<close>. The second call meets that item in the loop: if
  \<open>field_name()\<close> answers the empty string for it, the replacement statement
  raises \<open>NameError\<close> and the first value stays; if it answers anything else
  (\<open>None\<close>, as the other methods expect), nothing is replaced and the second
  \<open>WordQuery\<close> is appended after the first. In neither case does the slot end
  with the second value alone.
\<close>

theorem set_word_query_twice:
  "fst (set_word_query fname word_query_1 (Database n)) = Inr ()
     \<and> map_of (config (snd (set_word_query fname word_query_1 (Database n)))) ''field''
         = Some (PList [word_query_1])
     \<and> (if fname word_query_1 = PStr []
         then set_word_query fname word_query_2 (snd (set_word_query fname word_query_1 (Database n)))
              = (Inl (NameError ''items''), snd (set_word_query fname word_query_1 (Database n)))
         else fst (set_word_query fname word_query_2
                     (snd (set_word_query fname word_query_1 (Database n)))) = Inr ()
            \<and> map_of (config (snd (set_word_query fname word_query_2
                     (snd (set_word_query fname word_query_1 (Database n)))))) ''field''
                = Some (PList [word_query_1, word_query_2]))"
proof -
  let ?d1 = "(Database n)\<lparr>config := config (Database n) @ [(''field'', PList [word_query_1])]\<rparr>"
  have f: "map_of (config ?d1) ''field'' = Some (PList [word_query_1])"
    by (simp add: Database_def)
  have w1: "is_Field word_query_1" and w2: "is_WordQuery word_query_2"
    by (simp_all add: is_Field_def is_WordQuery_def word_query_1_def word_query_2_def)
  have bad: "set_word_query fname word_query_2 ?d1 = (Inl (NameError ''items''), ?d1)"
    if "fname word_query_1 = PStr []"
    using that f w1 w2
    by (simp add: set_word_query_def iter_def field_name_def eqE_def assert_type_def)
  have two: "fst (set_word_query fname word_query_2 ?d1) = Inr ()
      \<and> map_of (config (snd (set_word_query fname word_query_2 ?d1))) ''field''
          = Some (PList [word_query_1, word_query_2])"
    if "fname word_query_1 \<noteq> PStr []"
    using that f w1 w2
    by (simp add: set_word_query_def iter_def field_name_def eqE_def assert_type_def append_item_def
        update_conv')
  from f bad two show ?thesis
    by (simp only: set_word_query_fresh fst_conv snd_conv split: if_split) simp
qed

theorem set_word_query_twice_witness:
  "fst (set_word_query constructed_name word_query_2
          (snd (set_word_query constructed_name word_query_1 (Database ''db'')))) = Inr ()
     \<and> map_of (config (snd (set_word_query constructed_name word_query_2
          (snd (set_word_query constructed_name word_query_1 (Database ''db'')))))) ''field''
        = Some (PList [word_query_1, word_query_2])
     \<and> set_word_query (\<lambda>x. PStr []) word_query_2
          (snd (set_word_query (\<lambda>x. PStr []) word_query_1 (Database ''db'')))
        = (Inl (NameError ''items''),
           snd (set_word_query (\<lambda>x. PStr []) word_query_1 (Database ''db'')))"
proof -
  have a: "constructed_name word_query_1 \<noteq> PStr []"
    by (simp add: constructed_name_def word_query_1_def)
  from set_word_query_twice [of constructed_name "''db''"] a
  have one: "fst (set_word_query constructed_name word_query_2
          (snd (set_word_query constructed_name word_query_1 (Database ''db'')))) = Inr ()
     \<and> map_of (config (snd (set_word_query constructed_name word_query_2
          (snd (set_word_query constructed_name word_query_1 (Database ''db'')))))) ''field''
        = Some (PList [word_query_1, word_query_2])"
    by simp
  from set_word_query_twice [of "\<lambda>x. PStr []" "''db''"]
  have two: "set_word_query (\<lambda>x. PStr []) word_query_2
          (snd (set_word_query (\<lambda>x. PStr []) word_query_1 (Database ''db'')))
        = (Inl (NameError ''items''),
           snd (set_word_query (\<lambda>x. PStr []) word_query_1 (Database ''db'')))"
    by simp
  from one two show ?thesis by (simp only: simp_thms)
qed

section \<open>Adding a field\<close>

lemma add_to_property_list_eq_Inr:
  assumes "add_to_property_list fname ''field'' v isa d = (Inr (), d1)"
  shows "\<exists>ys. (map_of (config d) ''field'' = Some (PList ys) \<or> map_of (config d) ''field'' = None \<and> ys = [])
          \<and> d1 = d\<lparr>config := AList.update ''field'' (PList (ys @ [v])) (config d)\<rparr>"
proof (cases "map_of (config d) ''field''")
  case None
  with assms show ?thesis
    by (auto simp: add_to_property_list_def Let_def bindE_eq_Inr assert_type_def iter_def
        append_item_def split: sum.splits if_splits)
next
  case (Some l)
  with assms show ?thesis
    by (cases l)
      (auto simp: add_to_property_list_def Let_def bindE_eq_Inr assert_type_def iter_def
        append_item_def split: sum.splits if_splits)
qed

lemma add_field_eq_Inr:
  assumes "add_field fname f d = (Inr (), d1)"
  shows "add_to_property_list fname ''field'' f is_Field d = (Inr (), d1)"
  using assms by (auto simp: add_field_def split: sum.splits)

text \<open>
  Claim C8. Let \<open>f1\<close> and \<open>f2\<close> be fields whose \<open>field_name()\<close> is the same
  and not \<open>None\<close>. If \<open>add_field(f1)\<close> succeeds, then \<open>add_field(f2)\<close> on the
  resulting instance fails with \<open>DuplicateKey\<close> and leaves the instance, hence
  its field list, as it was.
\<close>

theorem add_field_duplicate:
  assumes "is_Field f2" and "fname f2 = fname f1" and "fname f1 \<noteq> PNone"
    and "add_field fname f1 d = (Inr (), d1)"
  shows "add_field fname f2 d1 = (Inl DuplicateKey, d1)
     \<and> fields fname (snd (add_field fname f2 d1)) = fields fname d1"
proof -
  from add_to_property_list_eq_Inr [OF add_field_eq_Inr [OF assms(4)]] obtain ys where
    d1: "d1 = d\<lparr>config := AList.update ''field'' (PList (ys @ [f1])) (config d)\<rparr>" by blast
  then have cur: "map_of (config d1) ''field'' = Some (PList (ys @ [f1]))"
    by (simp add: update_conv')
  from assms(1,2,3) cur have "add_field fname f2 d1 = (Inl DuplicateKey, d1)"
    by (simp add: add_field_def add_to_property_list_def assert_type_def field_name_def
        iter_def natural_key_def)
  then show ?thesis by simp
qed

theorem add_field_duplicate_witness:
  "fst (add_field constructed_name title_root_field (Database ''db'')) = Inr ()
     \<and> add_field constructed_name title_path_field
          (snd (add_field constructed_name title_root_field (Database ''db'')))
        = (Inl DuplicateKey, snd (add_field constructed_name title_root_field (Database ''db'')))"
proof -
  have a1: "is_Field title_path_field"
    by (simp add: is_Field_def title_path_field_def)
  have a2: "constructed_name title_path_field = constructed_name title_root_field"
    and a3: "constructed_name title_root_field \<noteq> PNone"
    by (simp_all add: constructed_name_def title_path_field_def title_root_field_def)
  have ok: "fst (add_field constructed_name title_root_field (Database ''db'')) = Inr ()"
    by code_simp
  then have a4: "add_field constructed_name title_root_field (Database ''db'')
      = (Inr (), snd (add_field constructed_name title_root_field (Database ''db'')))"
    by (simp add: prod_eq_iff)
  from add_field_duplicate [OF a1 a2 a3 a4] ok show ?thesis by simp
qed

end
